theory Spec2Isabelle
  imports Complex_Main
begin

section \<open>Reverse-annealing notebook: data model\<close>

text \<open>
  The notebook \<^verbatim>\<open>01-reverse-annealing.ipynb\<close> is a sequence of code cells.  Python
  exceptions are values of \<open>py_error\<close>; a computation that may raise returns
  \<open>py_error + 'a\<close> with \<open>Inl\<close> for the exception.

  A Python float is an IEEE double.  A finite double is the real number it denotes.
  Where the notebook computes with floats in NumPy (means, deviations, \<^verbatim>\<open>round\<close>) and
  where it stores the breakpoint of the pause schedule, the rounding of every operation
  is part of the model (\<open>round_double\<close>).  Three quotients are kept exact: the ratios
  \<^verbatim>\<open>.../float(reads)\<close> of \<^verbatim>\<open>analyze\<close> and of the exercise cell, the index
  \<^verbatim>\<open>int(5.0/95*n)\<close> (whose rounding \<open>i5_rounded\<close> covers) and the times of the schedules
  as they are meant (\<open>pause_schedule\<close>; \<open>pause_schedule_stored\<close> is the list of doubles).
\<close>

datatype py_error = IndexError | KeyError | NameError | ValueError | ZeroDivisionError | VendorError string

text \<open>
  One row of \<^verbatim>\<open>answer.record\<close>: the assignment (one spin per variable, in the order
  of \<^verbatim>\<open>answer.variables\<close>), its energy and the number of reads that produced it.
\<close>

record sample_rec =
  sample :: "int list"
  energy :: real
  num_occurrences :: nat

type_synonym sample_set = "sample_rec list"

subsection \<open>Hamming distances (cell \<^verbatim>\<open>get_hamming_distances\<close>)\<close>

text \<open>
  \<^verbatim>\<open>get_hamming_distance = lambda x1, x2: np.sum(x1 != x2)\<close> on two rows of one
  two-dimensional array: the rows have the same length and are compared position by
  position.
\<close>

definition get_hamming_distance :: "'a list \<Rightarrow> 'a list \<Rightarrow> nat" where
  "get_hamming_distance x1 x2 = length (filter (\<lambda>(a, b). a \<noteq> b) (zip x1 x2))"

text \<open>
  \<^verbatim>\<open>np.array([get_hamming_distance(x1, x2) for x1, x2 in zip(sols, sols[1:])])\<close>.
  The slice \<^verbatim>\<open>sols[1:]\<close> of an array without rows is empty, as \<open>drop 1 []\<close> is.
\<close>

definition get_hamming_distances :: "'a list list \<Rightarrow> nat list" where
  "get_hamming_distances sols =
     map (\<lambda>(x1, x2). get_hamming_distance x1 x2) (zip sols (drop 1 sols))"

text \<open>A two-dimensional array with \<open>m\<close> columns: every row has length \<open>m\<close>.\<close>

definition rectangular :: "nat \<Rightarrow> 'a list list \<Rightarrow> bool" where
  "rectangular m sols = list_all (\<lambda>row. length row = m) sols"

subsection \<open>Double precision, NumPy and Python helpers used by the cells\<close>

text \<open>Rounding to the nearest integer, ties to the even one (\<^verbatim>\<open>rint\<close>).\<close>

definition rint :: "real \<Rightarrow> int" where
  "rint x =
     (let f = \<lfloor>x\<rfloor>; d = x - of_int f
      in if d < 1 / 2 then f else if 1 / 2 < d then f + 1 else if even f then f else f + 1)"

text \<open>
  Doubles have 53 significant bits.  A real \<open>x\<close> with \<open>2^k \<le> |x| < 2^(k+1)\<close> lies
  between doubles that are multiples of \<open>2^(k-52)\<close>; below \<open>2^-1022\<close> the spacing
  stays \<open>2^-1074\<close> (subnormal numbers).
\<close>

definition ulp_exponent :: "real \<Rightarrow> int" where
  "ulp_exponent x = max \<lfloor>log 2 \<bar>x\<bar>\<rfloor> (- 1022) - 52"

text \<open>The nearest such multiple, ties to the even significand.\<close>

definition round_double :: "real \<Rightarrow> real" where
  "round_double x =
     (if x = 0 then 0
      else of_int (rint (x / 2 powr of_int (ulp_exponent x))) * 2 powr of_int (ulp_exponent x))"

text \<open>
  The double an arithmetic operation with the exact result \<open>x\<close> yields.  From
  \<open>2^1024\<close> on the operation overflows to an infinity: \<open>None\<close> stands for a result
  that is not a finite double (an infinity or a \<^verbatim>\<open>nan\<close>).
\<close>

definition to_double :: "real \<Rightarrow> real option" where
  "to_double x = (if \<bar>round_double x\<bar> < 2 ^ 1024 then Some (round_double x) else None)"

text \<open>
  \<^verbatim>\<open>a.mean()\<close> is NumPy's \<^verbatim>\<open>add.reduce\<close> of the entries, a sum in double precision,
  divided by their number.  The order in which NumPy adds the entries (pairwise, in
  blocks) is NumPy's own: the sum is the parameter \<open>add_reduce\<close> of every definition that
  uses it, from the entries to their sum (\<open>None\<close> when that is not finite).  On an array
  without entries the mean is \<^verbatim>\<open>nan\<close> (with a warning, no exception).
\<close>

definition np_mean :: "(real list \<Rightarrow> real option) \<Rightarrow> real list \<Rightarrow> real option" where
  "np_mean add_reduce xs =
     (if xs = [] then None
      else
        (case add_reduce xs of
           None \<Rightarrow> None
         | Some s \<Rightarrow> to_double (s / real (length xs))))"

text \<open>
  \<^verbatim>\<open>a.std()\<close>: the mean is subtracted from every entry, the differences are squared,
  the squares are averaged as in \<^verbatim>\<open>mean\<close>, and the root is taken, each in double
  precision.
\<close>

definition np_std :: "(real list \<Rightarrow> real option) \<Rightarrow> real list \<Rightarrow> real option" where
  "np_std add_reduce xs =
     (case np_mean add_reduce xs of
        None \<Rightarrow> None
      | Some mu \<Rightarrow>
          (case those (map (\<lambda>x. case to_double (x - mu) of
                                  None \<Rightarrow> None
                                | Some d \<Rightarrow> to_double (d * d)) xs) of
             None \<Rightarrow> None
           | Some squares \<Rightarrow>
               (case np_mean add_reduce squares of
                  None \<Rightarrow> None
                | Some v \<Rightarrow> to_double (sqrt v))))"

text \<open>
  \<^verbatim>\<open>round(x, 2)\<close> of a NumPy float: NumPy multiplies by 100, rounds to the nearest
  integer (ties to even) and divides by 100, each in double precision.
\<close>

definition round2 :: "real \<Rightarrow> real option" where
  "round2 x =
     (case to_double (x * 100) of
        None \<Rightarrow> None
      | Some p \<Rightarrow> to_double (of_int (rint p) / 100))"

text \<open>\<^verbatim>\<open>int(x)\<close> of a float truncates towards zero.\<close>

definition py_int :: "real \<Rightarrow> int" where
  "py_int x = (if 0 \<le> x then \<lfloor>x\<rfloor> else \<lceil>x\<rceil>)"

text \<open>
  Indexing \<^verbatim>\<open>a[i]\<close> of a list or array by an integer: \<open>0 \<le> i < len(a)\<close> selects
  from the front, \<open>-len(a) \<le> i < 0\<close> from the back, and every other index raises
  \<^verbatim>\<open>IndexError\<close>.
\<close>

definition py_index :: "'a list \<Rightarrow> int \<Rightarrow> py_error + 'a" where
  "py_index xs i =
     (if 0 \<le> i \<and> i < int (length xs) then Inr (xs ! nat i)
      else if i < 0 \<and> - int (length xs) \<le> i then Inr (xs ! nat (int (length xs) + i))
      else Inl IndexError)"

text \<open>
  \<^verbatim>\<open>answer.first\<close> belongs to the vendor SDK, not to the notebook.  It is taken as the
  SDK documents it: the record of lowest energy (the earliest one among equals), and
  \<^verbatim>\<open>ValueError\<close> on a sample set without records.
\<close>

definition first :: "sample_set \<Rightarrow> py_error + sample_rec" where
  "first answer =
     (case answer of
        [] \<Rightarrow> Inl ValueError
      | r # rs \<Rightarrow> Inr (foldl (\<lambda>best x. if energy x < energy best then x else best) r rs))"

subsection \<open>The helper \<^verbatim>\<open>analyze\<close>\<close>

text \<open>The global \<^verbatim>\<open>reads = 1000\<close> of the configuration cell.\<close>

definition reads :: nat where
  "reads = 1000"

text \<open>The seven-element list \<^verbatim>\<open>analyze\<close> returns, by the names of its local variables.\<close>

record analysis =
  solutions :: "int list list"
  energies :: "real list"
  hamming_distances :: "nat list"
  energy_best :: "real option"
  ratio :: real
  energy_mean :: "real option"
  hamming_mean :: "real option"

text \<open>
  \<^verbatim>\<open>
  def analyze(answer):
      solutions, energies = answer.record.sample, answer.record.energy
      energy_best = round(answer.first.energy, 2)
      ratio = list(answer.record.energy).count(ground_energy)/float(reads)
      hamming_distances = get_hamming_distances(solutions)
      energy_mean = round(energies.mean(), 2)
      hamming_mean = round(hamming_distances.mean(), 2)
      return([solutions, energies, hamming_distances, energy_best, ratio, energy_mean, hamming_mean])
  \<close>
  The global \<^verbatim>\<open>ground_energy\<close> is an argument, after NumPy's sum.  A \<^verbatim>\<open>round\<close> of
  a value that is not finite returns that value.
\<close>

definition analyze ::
  "(real list \<Rightarrow> real option) \<Rightarrow> real \<Rightarrow> sample_set \<Rightarrow> py_error + analysis" where
  "analyze add_reduce ground_energy answer =
     (case first answer of
        Inl e \<Rightarrow> Inl e
      | Inr best \<Rightarrow>
          Inr \<lparr> solutions = map sample answer,
                energies = map energy answer,
                hamming_distances = get_hamming_distances (map sample answer),
                energy_best = round2 (energy best),
                ratio = real (count_list (map energy answer) ground_energy) / real reads,
                energy_mean = Option.bind (np_mean add_reduce (map energy answer)) round2,
                hamming_mean =
                  Option.bind
                    (np_mean add_reduce (map real (get_hamming_distances (map sample answer))))
                    round2 \<rparr>)"

subsection \<open>The forward-anneal cell and the reverse-anneal printout\<close>

text \<open>\<^verbatim>\<open>i5 = int(5.0/95*len(forward_answer))\<close>, from the number of records.\<close>

definition i5 :: "nat \<Rightarrow> int" where
  "i5 n = py_int (5 / 95 * real n)"

text \<open>
  The same expression with the rounding of its two floating-point operations made
  explicit: the quotient \<^verbatim>\<open>5.0/95\<close> and the product each carry a relative error.
\<close>

definition i5_rounded :: "real \<Rightarrow> real \<Rightarrow> nat \<Rightarrow> int" where
  "i5_rounded d1 d2 n = py_int (5 / 95 * (1 + d1) * real n * (1 + d2))"

text \<open>
  What the forward-anneal cell computes from the vendor's answer: the initial state
  \<^verbatim>\<open>dict(zip(forward_answer.variables, forward_answer.record[i5].sample))\<close> (a later
  pair of a repeated key wins) and the values handed to the three \<^verbatim>\<open>print\<close> calls
  (which show the average and the deviation with two decimals).
\<close>

record 'v forward_report =
  initial :: "'v \<rightharpoonup> int"
  lowest_energy :: real
  average_energy :: "real option"
  stdev_energy :: "real option"
  initial_energy :: real

definition forward_cell ::
  "(real list \<Rightarrow> real option) \<Rightarrow> 'v list \<Rightarrow> sample_set \<Rightarrow> py_error + 'v forward_report" where
  "forward_cell add_reduce variables forward_answer =
     (case py_index forward_answer (i5 (length forward_answer)) of
        Inl e \<Rightarrow> Inl e
      | Inr r \<Rightarrow>
          (case py_index (map energy forward_answer) 0 of
             Inl e \<Rightarrow> Inl e
           | Inr e0 \<Rightarrow>
               (case py_index (map energy forward_answer) (i5 (length forward_answer)) of
                  Inl e \<Rightarrow> Inl e
                | Inr e5 \<Rightarrow>
                    Inr \<lparr> initial = map_of (rev (zip variables (sample r))),
                          lowest_energy = e0,
                          average_energy = np_mean add_reduce (map energy forward_answer),
                          stdev_energy = np_std add_reduce (map energy forward_answer),
                          initial_energy = e5 \<rparr>)))"

text \<open>
  The printout of the reverse-anneal cell: \<^verbatim>\<open>reverse_answer.record.energy[0]\<close>,
  \<^verbatim>\<open>reverse_energies.mean()\<close> and \<^verbatim>\<open>reverse_energies.std()\<close>.
\<close>

definition reverse_printout ::
  "(real list \<Rightarrow> real option) \<Rightarrow> sample_set \<Rightarrow> py_error + real \<times> real option \<times> real option" where
  "reverse_printout add_reduce reverse_answer =
     (case py_index (map energy reverse_answer) 0 of
        Inl e \<Rightarrow> Inl e
      | Inr e0 \<Rightarrow>
          Inr (e0, np_mean add_reduce (map energy reverse_answer),
               np_std add_reduce (map energy reverse_answer)))"

text \<open>
  One row of the sweep over the reverse-anneal parameters, from the answer of one request:
  \<^verbatim>\<open>
  modulating_distances = get_hamming_distances(modulating_solutions)
  row = dict(
      s_target=s_target,
      hold_time=hold_time,
      energy_stdev=np.std(modulating_energies),
      energy_mean=np.mean(modulating_energies),
      distance_mean=np.mean(modulating_distances),
  )
  \<close>
\<close>

record modulating_row =
  row_s_target :: real
  row_hold_time :: real
  row_energy_stdev :: "real option"
  row_energy_mean :: "real option"
  row_distance_mean :: "real option"

definition modulating_row ::
  "(real list \<Rightarrow> real option) \<Rightarrow> real \<Rightarrow> real \<Rightarrow> sample_set \<Rightarrow> modulating_row" where
  "modulating_row add_reduce s_target hold_time modulating_answer =
     \<lparr> row_s_target = s_target,
       row_hold_time = hold_time,
       row_energy_stdev = np_std add_reduce (map energy modulating_answer),
       row_energy_mean = np_mean add_reduce (map energy modulating_answer),
       row_distance_mean =
         np_mean add_reduce (map real (get_hamming_distances (map sample modulating_answer))) \<rparr>"

subsection \<open>Reference notions the statements compare with\<close>


text \<open>
  An answer requested with \<^verbatim>\<open>answer_mode='histogram'\<close> lists each distinct sample once,
  in order of increasing energy; such is the answer of the forward-anneal and of the
  reverse-anneal cell, whose printouts take the first record for the one of lowest energy.
\<close>

definition histogram_order :: "sample_set \<Rightarrow> bool" where
  "histogram_order answer = sorted (map energy answer)"


subsection \<open>Anneal schedules\<close>

text \<open>A schedule is a list of \<^verbatim>\<open>[time, s]\<close> breakpoints.\<close>

type_synonym schedule = "(real \<times> real) list"

text \<open>
  \<^verbatim>\<open>max_slope = 1.0/sampler.properties["annealing_time_range"][0]\<close>, from the solver's
  minimum annealing time.  Python raises on a division by zero; the quotient is a double.
\<close>

definition max_slope_cell :: "real \<Rightarrow> py_error + real option" where
  "max_slope_cell min_anneal_time =
     (if min_anneal_time = 0 then Inl ZeroDivisionError
      else Inr (to_double (1 / min_anneal_time)))"

text \<open>
  Modelled from the spec: the helper \<^verbatim>\<open>make_reverse_anneal_schedule\<close> of
  \<^verbatim>\<open>helpers/schedule.py\<close>, whose source is not part of the notebook file.  The spec
  describes it as a four-point geometry calculation without branching whose only
  failures come from input validation; the notebook describes its result as a list of
  \<^verbatim>\<open>[time, s]\<close> pairs that starts at \<open>s = 1\<close>, reverses to \<open>s_target\<close>, pauses for
  \<open>hold_time\<close> and anneals forward with slope \<open>ramp_up_slope\<close>.  Neither gives the
  validation or the slope of the reverse ramp: they are the parameters \<open>admissible\<close> and
  \<open>ramp_back_slope\<close>.
\<close>

definition make_reverse_anneal_schedule ::
  "(real \<Rightarrow> real \<Rightarrow> real \<Rightarrow> bool) \<Rightarrow> real \<Rightarrow> real \<Rightarrow> real \<Rightarrow> real \<Rightarrow> py_error + schedule" where
  "make_reverse_anneal_schedule admissible ramp_back_slope s_target hold_time ramp_up_slope =
     (if \<not> admissible s_target hold_time ramp_up_slope then Inl ValueError
      else
        (let ramp_time = (1 - s_target) / ramp_back_slope;
             ramp_up_time = (1 - s_target) / ramp_up_slope
         in Inr [(0, 1),
                 (ramp_time, s_target),
                 (ramp_time + hold_time, s_target),
                 (ramp_time + hold_time + ramp_up_time, 1)]))"

text \<open>
  The schedule cell:
  \<^verbatim>\<open>
  reverse_schedule = make_reverse_anneal_schedule(s_target=0.45, hold_time=80, ramp_up_slope=max_slope)
  time_total = reverse_schedule[3][0]
  \<close>
  It binds \<^verbatim>\<open>reverse_schedule\<close> and \<^verbatim>\<open>time_total\<close>.
\<close>

definition schedule_cell ::
  "(real \<Rightarrow> real \<Rightarrow> real \<Rightarrow> bool) \<Rightarrow> real \<Rightarrow> real \<Rightarrow> py_error + schedule \<times> real" where
  "schedule_cell admissible ramp_back_slope max_slope =
     (case make_reverse_anneal_schedule admissible ramp_back_slope (45 / 100) 80 max_slope of
        Inl e \<Rightarrow> Inl e
      | Inr reverse_schedule \<Rightarrow>
          (case py_index reverse_schedule 3 of
             Inl e \<Rightarrow> Inl e
           | Inr point \<Rightarrow> Inr (reverse_schedule, fst point)))"

text \<open>
  \<^verbatim>\<open>pause_schedule=[[0.0, 0.0], [50.0, 0.5], [time_total-0.5/max_slope, 0.5], [time_total, 1.0]]\<close>
  with the quotient and the difference in exact arithmetic: the schedule as it is meant.
\<close>

definition pause_schedule :: "real \<Rightarrow> real \<Rightarrow> py_error + schedule" where
  "pause_schedule time_total max_slope =
     (if max_slope = 0 then Inl ZeroDivisionError
      else Inr [(0, 0), (50, 1 / 2), (time_total - (1 / 2) / max_slope, 1 / 2), (time_total, 1)])"

text \<open>
  The same list as the interpreter stores it: the quotient \<^verbatim>\<open>0.5/max_slope\<close> is rounded
  to a double, and so is its difference from \<^verbatim>\<open>time_total\<close>; the other entries are
  doubles as they are written.  A time that is not finite is \<open>None\<close>.
\<close>

definition pause_schedule_stored :: "real \<Rightarrow> real \<Rightarrow> py_error + (real option \<times> real) list" where
  "pause_schedule_stored time_total max_slope =
     (if max_slope = 0 then Inl ZeroDivisionError
      else Inr [(Some 0, 0),
                (Some 50, 1 / 2),
                (case to_double ((1 / 2) / max_slope) of
                   None \<Rightarrow> None
                 | Some q \<Rightarrow> to_double (time_total - q), 1 / 2),
                (Some time_total, 1)])"

text \<open>Breakpoints in strictly increasing order of time.\<close>

definition increasing_in_time :: "schedule \<Rightarrow> bool" where
  "increasing_in_time sched = sorted_wrt (<) (map fst sched)"


subsection \<open>The tiling cell and the sampling cell\<close>

text \<open>
  The vendor's classes and methods are parameters of the cells: each returns a value or
  raises.  Of a \<^verbatim>\<open>TilingComposite\<close> the cell reads \<^verbatim>\<open>num_tiles\<close> and \<^verbatim>\<open>embeddings\<close>.
\<close>

record 'e tiling =
  num_tiles :: nat
  embeddings :: "'e list"

text \<open>Lines the cells print.\<close>

datatype out_line = Connected_to string | Unable_to_find string | Obtained_samples nat string

text \<open>
  The part of the kernel's namespace the cells share: \<^verbatim>\<open>sampler_embedded\<close> (\<open>None\<close>
  while the name is not bound) and the output printed so far.
\<close>

record 'c nb_state =
  sampler_embedded :: "'c option"
  printed :: "out_line list"

text \<open>
  \<^verbatim>\<open>
  tiled_sampler = TilingComposite(sampler, 1, 2, 4)
  if tiled_sampler.num_tiles:
      sampler_embedded = FixedEmbeddingComposite(sampler, embedding=tiled_sampler.embeddings[0])
  else:
      print("Unable to find two complete unit cells in QPU {}".format(sampler.solver.name))
  \<close>
\<close>

definition tiling_cell ::
  "('s \<Rightarrow> nat \<Rightarrow> nat \<Rightarrow> nat \<Rightarrow> py_error + 'e tiling) \<Rightarrow> ('s \<Rightarrow> 'e \<Rightarrow> py_error + 'c) \<Rightarrow>
   string \<Rightarrow> 's \<Rightarrow> 'c nb_state \<Rightarrow> py_error + 'c nb_state" where
  "tiling_cell TilingComposite FixedEmbeddingComposite solver_name sampler st =
     (case TilingComposite sampler 1 2 4 of
        Inl e \<Rightarrow> Inl e
      | Inr tiled_sampler \<Rightarrow>
          if num_tiles tiled_sampler \<noteq> 0 then
            (case py_index (embeddings tiled_sampler) 0 of
               Inl e \<Rightarrow> Inl e
             | Inr embedding \<Rightarrow>
                 (case FixedEmbeddingComposite sampler embedding of
                    Inl e \<Rightarrow> Inl e
                  | Inr composite \<Rightarrow> Inr (st\<lparr>sampler_embedded := Some composite\<rparr>)))
          else Inr (st\<lparr>printed := printed st @ [Unable_to_find solver_name]\<rparr>))"

text \<open>
  One block of the sampling cell, for the request \<open>req\<close> (the keyword arguments of the
  call) and the method's name in the printed line:
  \<^verbatim>\<open>
  answer = sampler_embedded.sample_ising(h, J, ...)
  print("Obtained {} samples from ...".format(len(answer)))
  data.append(analyze(answer))
  \<close>
  Reading the unbound name \<^verbatim>\<open>sampler_embedded\<close> raises \<^verbatim>\<open>NameError\<close>.
\<close>

definition sample_block ::
  "('c \<Rightarrow> 'r \<Rightarrow> py_error + sample_set) \<Rightarrow> (real list \<Rightarrow> real option) \<Rightarrow> real \<Rightarrow> 'r \<Rightarrow> string \<Rightarrow>
   'c nb_state \<times> analysis list \<Rightarrow> py_error + 'c nb_state \<times> analysis list" where
  "sample_block sample_ising add_reduce ground_energy req method = (\<lambda>(st, data).
     case sampler_embedded st of
       None \<Rightarrow> Inl NameError
     | Some composite \<Rightarrow>
         (case sample_ising composite req of
            Inl e \<Rightarrow> Inl e
          | Inr answer \<Rightarrow>
              (case analyze add_reduce ground_energy answer of
                 Inl e \<Rightarrow> Inl e
               | Inr a \<Rightarrow>
                   Inr (st\<lparr>printed := printed st @ [Obtained_samples (length answer) method]\<rparr>,
                        data @ [a]))))"

text \<open>An exception ends the cell: the statements after it do not run.\<close>

definition and_then :: "py_error + 'a \<Rightarrow> ('a \<Rightarrow> py_error + 'b) \<Rightarrow> py_error + 'b" where
  "and_then m f = (case m of Inl e \<Rightarrow> Inl e | Inr x \<Rightarrow> f x)"

text \<open>
  The sampling cell: \<^verbatim>\<open>data=[]\<close>, then the three blocks, for standard forward
  annealing, forward annealing with a pause and reverse annealing.
\<close>

definition sampling_cell ::
  "('c \<Rightarrow> 'r \<Rightarrow> py_error + sample_set) \<Rightarrow> (real list \<Rightarrow> real option) \<Rightarrow> real \<Rightarrow>
   'r \<Rightarrow> 'r \<Rightarrow> 'r \<Rightarrow>
   'c nb_state \<Rightarrow> py_error + 'c nb_state \<times> analysis list" where
  "sampling_cell sample_ising add_reduce ground_energy forward_req pause_req reverse_req st =
     and_then
       (and_then
          (sample_block sample_ising add_reduce ground_energy forward_req
             ''standard forward annealing'' (st, []))
          (sample_block sample_ising add_reduce ground_energy pause_req
             ''forward annealing with a pause''))
       (sample_block sample_ising add_reduce ground_energy reverse_req ''reverse annealing'')"

subsection \<open>The helper \<^verbatim>\<open>flip_bits\<close>\<close>

text \<open>
  A sample is a dictionary from variables to spins.  Dictionaries are objects: a heap
  maps each reference to the dictionary it holds, so that a mutation is seen through
  every name of the object.
\<close>

type_synonym 'k sample_dict = "'k \<rightharpoonup> int"

type_synonym 'k heap = "nat \<Rightarrow> 'k sample_dict"

text \<open>
  The comprehension \<^verbatim>\<open>{bit: -sample[bit] for bit in spin_bits}\<close>, as the pairs it
  produces in the order of iteration.  \<^verbatim>\<open>sample[bit]\<close> raises \<^verbatim>\<open>KeyError\<close> for a
  missing key, before anything is updated.
\<close>

fun negated_entries :: "'k sample_dict \<Rightarrow> 'k list \<Rightarrow> py_error + ('k \<times> int) list" where
  "negated_entries smp [] = Inr []"
| "negated_entries smp (b # bits) =
     (case smp b of
        None \<Rightarrow> Inl KeyError
      | Some v \<Rightarrow>
          (case negated_entries smp bits of
             Inl e \<Rightarrow> Inl e
           | Inr kvs \<Rightarrow> Inr ((b, - v) # kvs)))"

text \<open>
  \<^verbatim>\<open>
  def flip_bits(sample, spin_bits):
      sample.update({bit: -sample[bit] for bit in spin_bits})
      return sample
  \<close>
  The argument \<open>ref\<close> is the reference of \<^verbatim>\<open>sample\<close>; \<open>spin_bits\<close> is the sequence the
  iteration over the set (or list) yields.  A later pair of a repeated key wins.  The
  result is the heap after the call and the returned reference.
\<close>

definition flip_bits :: "'k heap \<Rightarrow> nat \<Rightarrow> 'k list \<Rightarrow> 'k heap \<times> (py_error + nat)" where
  "flip_bits h ref spin_bits =
     (case negated_entries (h ref) spin_bits of
        Inl e \<Rightarrow> (h, Inl e)
      | Inr kvs \<Rightarrow> (h(ref := h ref ++ map_of (rev kvs)), Inr ref))"

subsection \<open>The other cells that call the vendor's SDK\<close>

text \<open>
  \<^verbatim>\<open>
  sampler = DWaveSampler()
  print("Connected to sampler", sampler.solver.name)
  \<close>
  The constructor takes no argument: it is the value it returns or the exception it
  raises.
\<close>

definition connect_cell :: "py_error + 's \<Rightarrow> ('s \<Rightarrow> string) \<Rightarrow> py_error + 's \<times> out_line list" where
  "connect_cell DWaveSampler solver_name =
     (case DWaveSampler of
        Inl e \<Rightarrow> Inl e
      | Inr sampler \<Rightarrow> Inr (sampler, [Connected_to (solver_name sampler)]))"

text \<open>
  The forward-anneal cell as a whole: the request
  \<^verbatim>\<open>forward_answer = sampler.sample_ising(h, J, num_reads=1000, annealing_time=time_total, ...)\<close>
  and then what \<open>forward_cell\<close> computes from the answer and its \<^verbatim>\<open>variables\<close>.
\<close>

definition forward_request_cell ::
  "('s \<Rightarrow> 'r \<Rightarrow> py_error + sample_set) \<Rightarrow> (real list \<Rightarrow> real option) \<Rightarrow> (sample_set \<Rightarrow> 'v list) \<Rightarrow>
   's \<Rightarrow> 'r \<Rightarrow> py_error + 'v forward_report" where
  "forward_request_cell sample_ising add_reduce variables sampler req =
     (case sample_ising sampler req of
        Inl e \<Rightarrow> Inl e
      | Inr forward_answer \<Rightarrow> forward_cell add_reduce (variables forward_answer) forward_answer)"

text \<open>
  The reverse-anneal cell as a whole: the request
  \<^verbatim>\<open>reverse_answer = sampler.sample_ising(h, J, num_reads=1000, ..., **reverse_anneal_params)\<close>
  and then the printout.
\<close>

definition reverse_request_cell ::
  "('s \<Rightarrow> 'r \<Rightarrow> py_error + sample_set) \<Rightarrow> (real list \<Rightarrow> real option) \<Rightarrow>
   's \<Rightarrow> 'r \<Rightarrow> py_error + real \<times> real option \<times> real option" where
  "reverse_request_cell sample_ising add_reduce sampler req =
     (case sample_ising sampler req of
        Inl e \<Rightarrow> Inl e
      | Inr reverse_answer \<Rightarrow> reverse_printout add_reduce reverse_answer)"

text \<open>\<^verbatim>\<open>ground_state = {s_i:-1 for s_i in range(16)}\<close>\<close>

definition ground_state :: "nat sample_dict" where
  "ground_state = (\<lambda>s_i. if s_i < 16 then Some (- 1) else None)"

text \<open>
  \<^verbatim>\<open>
  ground_energy = ising_energy(ground_state, h, J)
  print("Energy of the global minimum: {}".format(ground_energy))
  print("Energy of a random sample: {}".format(ising_energy({...}, h, J)))
  \<close>
  with the problem \<^verbatim>\<open>h\<close>, \<^verbatim>\<open>J\<close> fixed: \<open>ising_energy\<close> is the vendor's function of the
  sample.  The random sample is an argument.
\<close>

definition energy_cell ::
  "(nat sample_dict \<Rightarrow> py_error + real) \<Rightarrow> nat sample_dict \<Rightarrow> py_error + real \<times> real" where
  "energy_cell ising_energy random_sample =
     (case ising_energy ground_state of
        Inl e \<Rightarrow> Inl e
      | Inr ground_energy \<Rightarrow>
          (case ising_energy random_sample of
             Inl e \<Rightarrow> Inl e
           | Inr random_energy \<Rightarrow> Inr (ground_energy, random_energy)))"

text \<open>
  \<^verbatim>\<open>flip_bits(dict(ground_state), spin_bits)\<close>: \<^verbatim>\<open>dict\<close> makes a new dictionary with the
  entries of \<^verbatim>\<open>ground_state\<close>, at a reference \<open>ref\<close> not used before, and \<open>flip_bits\<close> is
  applied to it.
\<close>

definition flipped_copy :: "nat heap \<Rightarrow> nat \<Rightarrow> nat list \<Rightarrow> nat heap \<times> (py_error + nat)" where
  "flipped_copy h ref spin_bits = flip_bits (h(ref := ground_state)) ref spin_bits"

text \<open>
  \<^verbatim>\<open>
  initial = flip_bits(dict(ground_state), {1, 4, 7, 10, 12, 15})
  print("Energy of initial state: {}".format(ising_energy(initial, h, J)))
  \<close>
\<close>

definition initial_state_cell ::
  "(nat sample_dict \<Rightarrow> py_error + real) \<Rightarrow> nat heap \<Rightarrow> nat \<Rightarrow> py_error + nat heap \<times> nat \<times> real" where
  "initial_state_cell ising_energy h ref =
     (case flipped_copy h ref [1, 4, 7, 10, 12, 15] of
        (h', Inl e) \<Rightarrow> Inl e
      | (h', Inr flipped) \<Rightarrow>
          (case ising_energy (h' flipped) of
             Inl e \<Rightarrow> Inl e
           | Inr en \<Rightarrow> Inr (h', flipped, en)))"

text \<open>
  A \<^verbatim>\<open>for\<close> loop over a list: the body runs for each element in turn on what the
  iterations before have accumulated, and an exception in the body ends the loop.
\<close>

fun for_loop :: "('p \<Rightarrow> 'a \<Rightarrow> py_error + 'a) \<Rightarrow> 'p list \<Rightarrow> 'a \<Rightarrow> py_error + 'a" where
  "for_loop body [] acc = Inr acc"
| "for_loop body (p # ps) acc =
     (case body p acc of
        Inl e \<Rightarrow> Inl e
      | Inr acc' \<Rightarrow> for_loop body ps acc')"

text \<open>
  One iteration of the parameter sweep, up to the row it adds:
  \<^verbatim>\<open>
  schedule = make_reverse_anneal_schedule(s_target=s_target, hold_time=hold_time, ramp_up_slope=max_slope)
  reverse_anneal_params = dict(anneal_schedule=schedule, initial_state=initial, reinitialize_state=True)
  modulating_answer = sampler_embedded.sample_ising(h, J, num_reads=1000, ..., **reverse_anneal_params)
  QPU_time+=modulating_answer.info['timing']['qpu_access_time']
  ...
  row = dict(...)
  \<close>
  The vendor's answer comes with the access time of its \<^verbatim>\<open>info\<close>, \<open>None\<close> when the
  key is missing.  \<open>reverse_request\<close> makes the keyword arguments from the schedule and
  the initial state.  The result is the access time and the row.
\<close>

definition modulating_request ::
  "(real \<Rightarrow> real \<Rightarrow> real \<Rightarrow> bool) \<Rightarrow> real \<Rightarrow>
   ('c \<Rightarrow> 'r \<Rightarrow> py_error + sample_set \<times> real option) \<Rightarrow> (schedule \<Rightarrow> nat sample_dict \<Rightarrow> 'r) \<Rightarrow>
   (real list \<Rightarrow> real option) \<Rightarrow> real \<Rightarrow> 'c option \<Rightarrow> nat sample_dict \<Rightarrow>
   real \<times> real \<Rightarrow> py_error + real \<times> modulating_row" where
  "modulating_request admissible ramp_back_slope sample_ising reverse_request add_reduce
       max_slope composite_name initial_state = (\<lambda>(s_target, hold_time).
     case make_reverse_anneal_schedule admissible ramp_back_slope s_target hold_time max_slope of
       Inl e \<Rightarrow> Inl e
     | Inr schedule \<Rightarrow>
         (case composite_name of
            None \<Rightarrow> Inl NameError
          | Some composite \<Rightarrow>
              (case sample_ising composite (reverse_request schedule initial_state) of
                 Inl e \<Rightarrow> Inl e
               | Inr (modulating_answer, timing) \<Rightarrow>
                   (case timing of
                      None \<Rightarrow> Inl KeyError
                    | Some access_time \<Rightarrow>
                        Inr (access_time,
                             modulating_row add_reduce s_target hold_time modulating_answer)))))"

text \<open>
  The parameter sweep:
  \<^verbatim>\<open>
  s_target_vals = [0.3, 0.45, 0.6, 0.75, 0.9]
  hold_time_vals = [10, 100]
  initial = flip_bits(dict(ground_state), {0, 7, 15})
  data_rows = list()
  QPU_time=0.0
  for s_target, hold_time in itertools.product(s_target_vals, hold_time_vals):
      ...
      data_rows.append(row)
  \<close>
  \<^verbatim>\<open>QPU_time\<close> is a float: each addition is rounded.  The result is \<^verbatim>\<open>QPU_time\<close> and
  \<^verbatim>\<open>data_rows\<close>.
\<close>

definition s_target_vals :: "real list" where
  "s_target_vals = [3 / 10, 45 / 100, 6 / 10, 75 / 100, 9 / 10]"

definition hold_time_vals :: "real list" where
  "hold_time_vals = [10, 100]"

definition modulating_cell ::
  "(real \<Rightarrow> real \<Rightarrow> real \<Rightarrow> bool) \<Rightarrow> real \<Rightarrow>
   ('c \<Rightarrow> 'r \<Rightarrow> py_error + sample_set \<times> real option) \<Rightarrow> (schedule \<Rightarrow> nat sample_dict \<Rightarrow> 'r) \<Rightarrow>
   (real list \<Rightarrow> real option) \<Rightarrow> real \<Rightarrow> 'c option \<Rightarrow> nat heap \<Rightarrow> nat \<Rightarrow>
   py_error + real option \<times> modulating_row list" where
  "modulating_cell admissible ramp_back_slope sample_ising reverse_request add_reduce
       max_slope composite_name h ref =
     (case flipped_copy h ref [0, 7, 15] of
        (h', Inl e) \<Rightarrow> Inl e
      | (h', Inr flipped) \<Rightarrow>
          for_loop
            (\<lambda>p (QPU_time, data_rows).
               case modulating_request admissible ramp_back_slope sample_ising reverse_request
                      add_reduce max_slope composite_name (h' flipped) p of
                 Inl e \<Rightarrow> Inl e
               | Inr (access_time, row) \<Rightarrow>
                   Inr (case QPU_time of
                          None \<Rightarrow> None
                        | Some t \<Rightarrow> to_double (t + access_time),
                        data_rows @ [row]))
            (List.product s_target_vals hold_time_vals)
            (Some 0, []))"

text \<open>
  The exercise cell (its plot is left out):
  \<^verbatim>\<open>
  initial = flip_bits(dict(ground_state), {1, 2, 5, 6, 9, 10, 13, 14, 15})
  s_target_vals = [0.95, 0.85, 0.75, 0.65, 0.55, 0.45, 0.35]
  hold_time_vals = [40, 100]
  x, y = 5, 0
  s_target, hold_time=s_target_vals[x], hold_time_vals[y]
  schedule = make_reverse_anneal_schedule(s_target, hold_time, ramp_up_slope=max_slope)
  ...
  reverse_answer = sampler_embedded.sample_ising(h, J, num_reads=1000, ..., **reverse_anneal_params)
  print("Solution = {} and Energy = {}".format(reverse_answer.record.sample[0], reverse_answer.record.energy[0]))
  ratio = 0
  if reverse_answer.record.energy[0] == ground_energy:
      ratio = reverse_answer.record[0]['num_occurrences']/float(reads)
  \<close>
  The result is the solution, its energy and the ratio.
\<close>

definition exercise_cell ::
  "(real \<Rightarrow> real \<Rightarrow> real \<Rightarrow> bool) \<Rightarrow> real \<Rightarrow>
   ('c \<Rightarrow> 'r \<Rightarrow> py_error + sample_set) \<Rightarrow> (schedule \<Rightarrow> nat sample_dict \<Rightarrow> 'r) \<Rightarrow>
   real \<Rightarrow> real \<Rightarrow> 'c option \<Rightarrow> nat heap \<Rightarrow> nat \<Rightarrow> py_error + int list \<times> real \<times> real" where
  "exercise_cell admissible ramp_back_slope sample_ising reverse_request
       max_slope ground_energy composite_name h ref =
     (case flipped_copy h ref [1, 2, 5, 6, 9, 10, 13, 14, 15] of
        (h', Inl e) \<Rightarrow> Inl e
      | (h', Inr flipped) \<Rightarrow>
          (case py_index [95 / 100, 85 / 100, 75 / 100, 65 / 100, 55 / 100, 45 / 100, 35 / 100] 5 of
             Inl e \<Rightarrow> Inl e
           | Inr s_target \<Rightarrow>
               (case py_index [40, 100] 0 of
                  Inl e \<Rightarrow> Inl e
                | Inr hold_time \<Rightarrow>
                    (case make_reverse_anneal_schedule admissible ramp_back_slope
                            s_target hold_time max_slope of
                       Inl e \<Rightarrow> Inl e
                     | Inr schedule \<Rightarrow>
                         (case composite_name of
                            None \<Rightarrow> Inl NameError
                          | Some composite \<Rightarrow>
                              (case sample_ising composite (reverse_request schedule (h' flipped)) of
                                 Inl e \<Rightarrow> Inl e
                               | Inr reverse_answer \<Rightarrow>
                                   (case py_index reverse_answer 0 of
                                      Inl e \<Rightarrow> Inl e
                                    | Inr r \<Rightarrow>
                                        Inr (sample r, energy r,
                                             if energy r = ground_energy
                                             then real (num_occurrences r) / real reads
                                             else 0))))))))"

text \<open>
  The dictionary \<^verbatim>\<open>flip_bits(dict(ground_state), spin_bits)\<close> holds when every bit is
  one of the sixteen variables: the spins of \<open>spin_bits\<close> are \<open>1\<close>, the others \<open>-1\<close>.
\<close>

definition flipped_state :: "nat list \<Rightarrow> nat sample_dict" where
  "flipped_state spin_bits =
     (\<lambda>k. if k \<in> set spin_bits then map_option uminus (ground_state k) else ground_state k)"

section \<open>Concrete inputs\<close>

text \<open>Result sets used to evaluate the cells on explicit data.\<close>

definition example_raw_answer :: sample_set where
  "example_raw_answer =
     [\<lparr>sample = [-1, -1], energy = -20, num_occurrences = 1\<rparr>,
      \<lparr>sample = [1, -1], energy = -16, num_occurrences = 1\<rparr>,
      \<lparr>sample = [-1, -1], energy = -20, num_occurrences = 1\<rparr>]"

definition example_histogram_answer :: sample_set where
  "example_histogram_answer =
     [\<lparr>sample = [-1], energy = 0, num_occurrences = 3\<rparr>,
      \<lparr>sample = [1], energy = 4, num_occurrences = 1\<rparr>]"

definition example_eighth_answer :: sample_set where
  "example_eighth_answer = [\<lparr>sample = [1], energy = 1 / 8, num_occurrences = 1\<rparr>]"


definition example_forward_answer :: sample_set where
  "example_forward_answer =
     map (\<lambda>k. \<lparr>sample = [1], energy = real k, num_occurrences = 1\<rparr>) [0..<20]"

text \<open>
  A sum that commits no rounding error, as the sum in double precision does whenever all
  its partial sums are doubles (sums of small integers are).
\<close>

definition example_add_reduce :: "real list \<Rightarrow> real option" where
  "example_add_reduce xs = Some (sum_list xs)"

text \<open>
  An input validation for the schedule helper (the parameter \<open>admissible\<close>): the target
  within \<open>[0, 1]\<close>, a hold time that is not negative, a positive slope.
\<close>

definition example_admissible :: "real \<Rightarrow> real \<Rightarrow> real \<Rightarrow> bool" where
  "example_admissible s_target hold_time ramp_up_slope =
     (0 \<le> s_target \<and> s_target \<le> 1 \<and> 0 \<le> hold_time \<and> 0 < ramp_up_slope)"

text \<open>
  Stand-ins for the vendor's classes, with samplers, embeddings and requests numbered:
  sampler 0 cannot be reached, sampler 1 has no tile, sampler 2 has a tile whose embedding
  is refused; request 0 is refused, request 1 yields no sample.
\<close>

definition example_TilingComposite :: "nat \<Rightarrow> nat \<Rightarrow> nat \<Rightarrow> nat \<Rightarrow> py_error + nat tiling" where
  "example_TilingComposite sampler m n t =
     (if sampler = 0 then Inl (VendorError ''SolverFailureError'')
      else if sampler = 1 then Inr \<lparr>num_tiles = 0, embeddings = []\<rparr>
      else Inr \<lparr>num_tiles = 1, embeddings = [7]\<rparr>)"

definition example_FixedEmbeddingComposite :: "nat \<Rightarrow> nat \<Rightarrow> py_error + nat" where
  "example_FixedEmbeddingComposite sampler embedding =
     (if sampler = 2 then Inl (VendorError ''InvalidEmbedding'') else Inr (sampler + embedding))"

definition example_sample_ising :: "nat \<Rightarrow> nat \<Rightarrow> py_error + sample_set" where
  "example_sample_ising composite req =
     (if req = 0 then Inl (VendorError ''InvalidSchedule'')
      else if req = 1 then Inr []
      else Inr example_raw_answer)"

text \<open>
  Heaps with one sample at reference 0: three spins \<open>-1\<close>, and a dictionary that holds
  the value 0.
\<close>

definition example_heap :: "nat heap" where
  "example_heap = (\<lambda>ref. if ref = 0 then [0 \<mapsto> -1, 1 \<mapsto> -1, 2 \<mapsto> -1] else Map.empty)"

definition example_zero_heap :: "nat heap" where
  "example_zero_heap = (\<lambda>ref. if ref = 0 then [0 \<mapsto> 0] else Map.empty)"

text \<open>
  A stand-in for \<^verbatim>\<open>sample_ising\<close> whose request is the anneal schedule: a schedule
  longer than 100 microseconds is refused, any other is answered with the access time 1.
\<close>

definition example_timed_sample_ising :: "nat \<Rightarrow> schedule \<Rightarrow> py_error + sample_set \<times> real option" where
  "example_timed_sample_ising composite anneal_schedule =
     (if 100 < fst (last anneal_schedule) then Inl (VendorError ''InvalidSchedule'')
      else Inr (example_raw_answer, Some 1))"

section \<open>Auxiliary facts\<close>

subsection \<open>Hamming distance\<close>

lemma get_hamming_distance_card:
  "length x1 = length x2 \<Longrightarrow>
   get_hamming_distance x1 x2 = card {j. j < length x1 \<and> x1 ! j \<noteq> x2 ! j}"
proof (induction x1 x2 rule: list_induct2)
  case Nil
  show ?case by (simp add: get_hamming_distance_def)
next
  case (Cons a x1 b x2)
  let ?S = "{j. j < length x1 \<and> x1 ! j \<noteq> x2 ! j}"
  let ?T = "{j. j < Suc (length x1) \<and> (a # x1) ! j \<noteq> (b # x2) ! j}"
  have fin: "finite ?S" by simp
  have T: "?T = (if a \<noteq> b then {0} else {}) \<union> Suc ` ?S"
  proof (rule set_eqI)
    fix j show "j \<in> ?T \<longleftrightarrow> j \<in> (if a \<noteq> b then {0} else {}) \<union> Suc ` ?S"
      by (cases j) auto
  qed
  have "card ?T = (if a \<noteq> b then 1 else 0) + card ?S"
    unfolding T using fin
    by (auto simp: card_image card_insert_if)
  with Cons.IH show ?case
    by (simp add: get_hamming_distance_def)
qed

lemma get_hamming_distances_length:
  "length (get_hamming_distances sols) = length sols - 1"
  by (simp add: get_hamming_distances_def)

lemma get_hamming_distances_nth:
  assumes "Suc i < length sols"
  shows "get_hamming_distances sols ! i = get_hamming_distance (sols ! i) (sols ! Suc i)"
  using assms by (simp add: get_hamming_distances_def)

subsection \<open>Double precision\<close>

lemma rint_of_int: "rint (of_int k) = k"
  by (simp add: rint_def)

lemma rint_eval:
  "rint x = (if x - of_int \<lfloor>x\<rfloor> < 1 / 2 then \<lfloor>x\<rfloor>
             else if 1 / 2 < x - of_int \<lfloor>x\<rfloor> then \<lfloor>x\<rfloor> + 1
             else if even \<lfloor>x\<rfloor> then \<lfloor>x\<rfloor> else \<lfloor>x\<rfloor> + 1)"
  by (simp add: rint_def Let_def)

lemma ulp_exponent_binade:
  assumes "2 powr of_int k \<le> \<bar>x\<bar>" and "\<bar>x\<bar> < 2 powr of_int (k + 1)" and "- 1022 \<le> k"
  shows "ulp_exponent x = k - 52"
proof -
  have "(0::real) < 2 powr of_int k" by simp
  with assms(1) have pos: "0 < \<bar>x\<bar>" by linarith
  have "\<lfloor>log 2 \<bar>x\<bar>\<rfloor> = k"
    using assms(1,2) pos by (simp add: floor_log_eq_powr_iff)
  with assms(3) show ?thesis by (simp add: ulp_exponent_def)
qed

lemma round_double_up:
  fixes k :: nat
  assumes "2 ^ k \<le> \<bar>x\<bar>" and "\<bar>x\<bar> < 2 * 2 ^ k" and "k \<le> 52"
  shows "round_double x = of_int (rint (x * 2 ^ (52 - k))) / 2 ^ (52 - k)"
proof -
  have p1: "(2::real) powr of_int (int k) = 2 ^ k" by (simp add: powr_realpow)
  have p2: "(2::real) powr of_int (int k + 1) = 2 * 2 ^ k"
    by (simp add: powr_add powr_realpow)
  have ue: "ulp_exponent x = int k - 52"
  proof (rule ulp_exponent_binade)
    show "2 powr of_int (int k) \<le> \<bar>x\<bar>" unfolding p1 by (rule assms(1))
    show "\<bar>x\<bar> < 2 powr of_int (int k + 1)" unfolding p2 by (rule assms(2))
    show "- 1022 \<le> int k" by simp
  qed
  have "real_of_int (int k - 52) = - real (52 - k)" using assms(3) by simp
  then have "(2::real) powr of_int (int k - 52) = 2 powr (- real (52 - k))" by (simp only:)
  also have "\<dots> = 1 / 2 powr real (52 - k)" by (rule powr_minus_divide)
  also have "\<dots> = 1 / 2 ^ (52 - k)" by (simp only: powr_realpow zero_less_numeral)
  finally have pw: "(2::real) powr of_int (int k - 52) = 1 / 2 ^ (52 - k)" .
  have "(0::real) < 2 ^ k" by simp
  with assms(1) have "0 < \<bar>x\<bar>" by linarith
  then have "x \<noteq> 0" by simp
  then have "round_double x
      = of_int (rint (x / 2 powr of_int (ulp_exponent x))) * 2 powr of_int (ulp_exponent x)"
    by (simp only: round_double_def if_False)
  then have "round_double x = of_int (rint (x / (1 / P))) * (1 / P)" if "P = 2 ^ (52 - k)" for P :: real
    unfolding ue pw that .
  moreover have "x / (1 / P) = x * P" for P :: real by simp
  ultimately show ?thesis by (simp only: mult_1 times_divide_eq_right mult.right_neutral)
qed

lemma round_double_down:
  fixes k :: nat
  assumes "1 / 2 ^ k \<le> \<bar>x\<bar>" and "\<bar>x\<bar> < 2 / 2 ^ k" and "k \<le> 1022"
  shows "round_double x = of_int (rint (x * 2 ^ (52 + k))) / 2 ^ (52 + k)"
proof -
  have p1: "(2::real) powr of_int (- int k) = 1 / 2 ^ k"
    by (simp add: powr_minus powr_realpow divide_inverse)
  have "real_of_int (- int k + 1) = 1 + (- real k)" by simp
  then have "(2::real) powr of_int (- int k + 1) = 2 powr 1 * 2 powr (- real k)"
    by (simp only: powr_add)
  then have p2: "(2::real) powr of_int (- int k + 1) = 2 / 2 ^ k"
    by (simp add: powr_minus powr_realpow divide_inverse)
  have ue: "ulp_exponent x = - int k - 52"
  proof (rule ulp_exponent_binade)
    show "2 powr of_int (- int k) \<le> \<bar>x\<bar>" unfolding p1 by (rule assms(1))
    show "\<bar>x\<bar> < 2 powr of_int (- int k + 1)" unfolding p2 by (rule assms(2))
    show "- 1022 \<le> - int k" using assms(3) by simp
  qed
  have "real_of_int (- int k - 52) = - real (52 + k)" by simp
  then have "(2::real) powr of_int (- int k - 52) = 2 powr (- real (52 + k))" by (simp only:)
  also have "\<dots> = 1 / 2 powr real (52 + k)" by (rule powr_minus_divide)
  also have "\<dots> = 1 / 2 ^ (52 + k)" by (simp only: powr_realpow zero_less_numeral)
  finally have pw: "(2::real) powr of_int (- int k - 52) = 1 / 2 ^ (52 + k)" .
  have "(0::real) < 1 / 2 ^ k" by simp
  with assms(1) have "0 < \<bar>x\<bar>" by linarith
  then have "x \<noteq> 0" by simp
  then have "round_double x
      = of_int (rint (x / 2 powr of_int (ulp_exponent x))) * 2 powr of_int (ulp_exponent x)"
    by (simp only: round_double_def if_False)
  then have "round_double x = of_int (rint (x / (1 / P))) * (1 / P)" if "P = 2 ^ (52 + k)" for P :: real
    unfolding ue pw that .
  moreover have "x / (1 / P) = x * P" for P :: real by simp
  ultimately show ?thesis by (simp only: mult_1 times_divide_eq_right mult.right_neutral)
qed

lemma round_double_of_int:
  assumes "\<bar>k\<bar> < 2 ^ 53"
  shows "round_double (of_int k) = of_int k"
proof (cases "k = 0")
  case True
  then show ?thesis by (simp add: round_double_def)
next
  case False
  then have "1 \<le> nat \<bar>k\<bar>" by simp
  from ex_power_ivl1 [OF order_refl this] obtain n where
    n: "2 ^ n \<le> nat \<bar>k\<bar>" "nat \<bar>k\<bar> < 2 ^ (n + 1)" by blast
  from assms have "nat \<bar>k\<bar> < 2 ^ 53" by (simp add: nat_less_iff)
  with n(1) have "(2::nat) ^ n < 2 ^ 53" by linarith
  then have "n < 53" by (rule power_less_imp_less_exp [rotated]) simp
  then have n52: "n \<le> 52" by simp
  have ak: "\<bar>real_of_int k\<bar> = real (nat \<bar>k\<bar>)" by simp
  from n(1) have "real (2 ^ n) \<le> real (nat \<bar>k\<bar>)" by (rule iffD2 [OF of_nat_le_iff])
  then have lo: "2 ^ n \<le> \<bar>real_of_int k\<bar>" unfolding ak by simp
  from n(2) have "real (nat \<bar>k\<bar>) < real (2 ^ (n + 1))" by (rule iffD2 [OF of_nat_less_iff])
  then have hi: "\<bar>real_of_int k\<bar> < 2 * 2 ^ n" unfolding ak by simp
  have "real_of_int k * 2 ^ (52 - n) = real_of_int (k * 2 ^ (52 - n))" by simp
  then have "rint (real_of_int k * 2 ^ (52 - n)) = k * 2 ^ (52 - n)"
    by (simp only: rint_of_int)
  with round_double_up [OF lo hi n52] show ?thesis by simp
qed

lemma to_double_of_int:
  assumes "\<bar>k\<bar> < 2 ^ 53"
  shows "to_double (of_int k) = Some (of_int k)"
proof -
  have "(2::int) ^ 53 < 2 ^ 1024" by simp
  with assms have "\<bar>k\<bar> < 2 ^ 1024" by linarith
  then have "real_of_int \<bar>k\<bar> < real_of_int (2 ^ 1024)" by (rule iffD2 [OF of_int_less_iff])
  then have "\<bar>real_of_int k\<bar> < 2 ^ 1024" by simp
  then show ?thesis by (simp add: to_double_def round_double_of_int [OF assms])
qed

lemma round2_of_int:
  assumes "\<bar>k\<bar> * 100 < 2 ^ 53"
  shows "round2 (of_int k) = Some (of_int k)"
proof -
  from assms have k: "\<bar>k\<bar> < 2 ^ 53" by linarith
  from assms have "\<bar>k * 100\<bar> < 2 ^ 53" by (simp add: abs_mult)
  from to_double_of_int [OF this] have 1: "to_double (real_of_int k * 100) = Some (of_int (k * 100))"
    by simp
  have 2: "real_of_int (k * 100) / 100 = real_of_int k" by simp
  show ?thesis
    unfolding round2_def 1 option.case rint_of_int 2 by (rule to_double_of_int [OF k])
qed

subsection \<open>Double precision: values\<close>

lemma double_25_2:
  "to_double (25 / 2) = Some (25 / 2)"
proof -
  have "round_double (25 / 2) = of_int (rint (25 / 2 * 2 ^ (52 - 3))) / 2 ^ (52 - 3)"
    by (rule round_double_up) simp_all
  also have "rint (25 / 2 * 2 ^ (52 - 3)) = 7036874417766400"
    by (simp add: rint_eval)
  finally have "round_double (25 / 2) = 25 / 2" by simp
  then show ?thesis by (simp add: to_double_def)
qed

lemma double_12_100:
  "to_double (3 / 25) = Some (1080863910568919 / 9007199254740992)"
proof -
  have "round_double (3 / 25) = of_int (rint (3 / 25 * 2 ^ (52 + 4))) / 2 ^ (52 + 4)"
    by (rule round_double_down) simp_all
  also have "rint (3 / 25 * 2 ^ (52 + 4)) = 8646911284551352"
    by (simp add: rint_eval)
  finally have "round_double (3 / 25) = 1080863910568919 / 9007199254740992" by simp
  then show ?thesis by (simp add: to_double_def)
qed




lemma double_1_200:
  "to_double (1 / 200) = Some (5764607523034235 / 1152921504606846976)"
proof -
  have "round_double (1 / 200) = of_int (rint (1 / 200 * 2 ^ (52 + 8))) / 2 ^ (52 + 8)"
    by (rule round_double_down) simp_all
  also have "rint (1 / 200 * 2 ^ (52 + 8)) = 5764607523034235"
    by (simp add: rint_eval)
  finally have "round_double (1 / 200) = 5764607523034235 / 1152921504606846976" by simp
  then show ?thesis by (simp add: to_double_def)
qed

lemma double_83_minus:
  "to_double (95686720274845264773 / 1152921504606846976) = Some (730031740378153 / 8796093022208)"
proof -
  have "round_double (95686720274845264773 / 1152921504606846976) = of_int (rint (95686720274845264773 / 1152921504606846976 * 2 ^ (52 - 6))) / 2 ^ (52 - 6)"
    by (rule round_double_up) simp_all
  also have "rint (95686720274845264773 / 1152921504606846976 * 2 ^ (52 - 6)) = 5840253923025224"
    by (simp add: rint_eval)
  finally have "round_double (95686720274845264773 / 1152921504606846976) = 730031740378153 / 8796093022208" by simp
  then show ?thesis by (simp add: to_double_def)
qed



subsection \<open>Records, statistics and indexing\<close>


lemma first_nonempty:
  "answer \<noteq> [] \<Longrightarrow> \<exists>r. first answer = Inr r"
  by (cases answer) (simp_all add: first_def)

lemma foldl_best_mem:
  "foldl (\<lambda>best x. if energy x < energy best then x else best) r rs \<in> set (r # rs)"
proof (induction rs arbitrary: r)
  case Nil
  show ?case by simp
next
  case (Cons x rs)
  from Cons.IH [of x] Cons.IH [of r] show ?case by auto
qed

lemma foldl_best_le_start:
  "energy (foldl (\<lambda>best x. if energy x < energy best then x else best) r rs) \<le> energy r"
proof (induction rs arbitrary: r)
  case Nil
  show ?case by simp
next
  case (Cons x rs)
  from Cons.IH [of x] Cons.IH [of r] show ?case by auto
qed

lemma foldl_best_le:
  "y \<in> set (r # rs) \<Longrightarrow>
   energy (foldl (\<lambda>best x. if energy x < energy best then x else best) r rs) \<le> energy y"
proof (induction rs arbitrary: r)
  case Nil
  then show ?case by simp
next
  case (Cons x rs)
  show ?case
  proof (cases "y \<in> set rs")
    case True
    with Cons.IH [of x] Cons.IH [of r] show ?thesis by auto
  next
    case False
    with Cons.prems have "y = r \<or> y = x" by auto
    with foldl_best_le_start [of x rs] foldl_best_le_start [of r rs] show ?thesis
      by auto
  qed
qed

lemma foldl_best_energy:
  "energy (foldl (\<lambda>best x. if energy x < energy best then x else best) r rs)
     = Min (set (map energy (r # rs)))"
proof (rule sym, rule Min_eqI)
  show "finite (set (map energy (r # rs)))" by simp
next
  fix e assume "e \<in> set (map energy (r # rs))"
  then obtain y where "y \<in> set (r # rs)" "e = energy y" by auto
  with foldl_best_le [of y r rs]
  show "energy (foldl (\<lambda>best x. if energy x < energy best then x else best) r rs) \<le> e"
    by simp
next
  from foldl_best_mem [of r rs]
  show "energy (foldl (\<lambda>best x. if energy x < energy best then x else best) r rs)
          \<in> set (map energy (r # rs))"
    unfolding set_map by (rule imageI)
qed

lemma first_energy_Min:
  "first answer = Inr r \<Longrightarrow> energy r = Min (set (map energy answer))"
  by (cases answer) (auto simp: first_def foldl_best_energy simp del: set_map list.map)

lemma i5_bounds:
  assumes "0 < n"
  shows "0 \<le> i5 n" and "i5 n < int n"
proof -
  have nonneg: "(0::real) \<le> 5 / 95 * real n" by simp
  then have eq: "i5 n = \<lfloor>5 / 95 * real n\<rfloor>" by (simp add: i5_def py_int_def)
  from nonneg show "0 \<le> i5 n" unfolding eq by simp
  from assms have "5 / 95 * real n < real n" by simp
  then have "\<lfloor>5 / 95 * real n\<rfloor> < int n"
    by (simp add: floor_less_iff)
  then show "i5 n < int n" unfolding eq .
qed

lemma py_index_in_range:
  "0 \<le> i \<Longrightarrow> i < int (length xs) \<Longrightarrow> py_index xs i = Inr (xs ! nat i)"
  by (simp add: py_index_def Let_def)

lemma forward_cell_nonempty:
  assumes "answer \<noteq> []"
  shows "forward_cell add_reduce vars answer =
     Inr \<lparr> initial = map_of (rev (zip vars (sample (answer ! nat (i5 (length answer)))))),
           lowest_energy = energy (answer ! 0),
           average_energy = np_mean add_reduce (map energy answer),
           stdev_energy = np_std add_reduce (map energy answer),
           initial_energy = energy (answer ! nat (i5 (length answer))) \<rparr>"
proof -
  from assms have n: "0 < length answer" by simp
  note b = i5_bounds [OF n]
  have nat_lt: "nat (i5 (length answer)) < length answer" using b by simp
  have 1: "py_index answer (i5 (length answer)) = Inr (answer ! nat (i5 (length answer)))"
    using b by (simp add: py_index_in_range)
  have 2: "py_index (map energy answer) 0 = Inr (energy (answer ! 0))"
    using n by (simp add: py_index_def)
  have 3: "py_index (map energy answer) (i5 (length answer))
             = Inr (energy (answer ! nat (i5 (length answer))))"
    using b nat_lt by (simp add: py_index_in_range)
  show ?thesis by (simp add: forward_cell_def 1 2 3)
qed

lemma sorted_hd_Min:
  assumes "xs \<noteq> []" and "sorted xs"
  shows "xs ! 0 = Min (set (xs :: real list))"
proof (rule sym, rule Min_eqI)
  show "finite (set xs)" by simp
next
  fix y assume "y \<in> set xs"
  then obtain i where "i < length xs" "y = xs ! i" by (auto simp: in_set_conv_nth)
  with assms show "xs ! 0 \<le> y" by (simp add: sorted_iff_nth_mono)
next
  from assms(1) show "xs ! 0 \<in> set xs" by simp
qed

lemma analyze_nonempty:
  assumes "answer \<noteq> []"
  shows "analyze add_reduce ground_energy answer =
     Inr \<lparr> solutions = map sample answer,
           energies = map energy answer,
           hamming_distances = get_hamming_distances (map sample answer),
           energy_best = round2 (Min (set (map energy answer))),
           ratio = real (count_list (map energy answer) ground_energy) / real reads,
           energy_mean = Option.bind (np_mean add_reduce (map energy answer)) round2,
           hamming_mean =
             Option.bind
               (np_mean add_reduce (map real (get_hamming_distances (map sample answer))))
               round2 \<rparr>"
proof -
  from first_nonempty [OF assms] obtain r where r: "first answer = Inr r" ..
  from first_energy_Min [OF r] show ?thesis
    by (simp add: analyze_def r)
qed


lemma reverse_printout_nonempty:
  assumes "answer \<noteq> []"
  shows "reverse_printout add_reduce answer =
     Inr (energy (answer ! 0), np_mean add_reduce (map energy answer),
          np_std add_reduce (map energy answer))"
  using assms by (simp add: reverse_printout_def py_index_def)



lemma analyze_empty: "analyze add_reduce ground_energy [] = Inl ValueError"
  by (simp add: analyze_def first_def)

lemma forward_cell_empty: "forward_cell add_reduce vars [] = Inl IndexError"
  by (simp add: forward_cell_def py_index_def i5_def py_int_def)

lemma reverse_printout_empty: "reverse_printout add_reduce [] = Inl IndexError"
  by (simp add: reverse_printout_def py_index_def)

subsection \<open>Schedules\<close>

lemma make_reverse_anneal_schedule_admissible:
  assumes "admissible s_target hold_time ramp_up_slope"
  shows "make_reverse_anneal_schedule admissible ramp_back_slope s_target hold_time ramp_up_slope =
     Inr [(0, 1),
          ((1 - s_target) / ramp_back_slope, s_target),
          ((1 - s_target) / ramp_back_slope + hold_time, s_target),
          ((1 - s_target) / ramp_back_slope + hold_time + (1 - s_target) / ramp_up_slope, 1)]"
  using assms by (simp add: make_reverse_anneal_schedule_def Let_def)

lemma schedule_cell_admissible:
  assumes "admissible (45 / 100) 80 max_slope"
  shows "schedule_cell admissible ramp_back_slope max_slope =
     Inr ([(0, 1),
           ((1 - 45 / 100) / ramp_back_slope, 45 / 100),
           ((1 - 45 / 100) / ramp_back_slope + 80, 45 / 100),
           ((1 - 45 / 100) / ramp_back_slope + 80 + (1 - 45 / 100) / max_slope, 1)],
          (1 - 45 / 100) / ramp_back_slope + 80 + (1 - 45 / 100) / max_slope)"
  unfolding schedule_cell_def make_reverse_anneal_schedule_admissible [of admissible "45 / 100" 80 max_slope ramp_back_slope, OF assms]
  by (simp add: py_index_def)

lemma four_points_increasing:
  fixes t1 t2 t3 t4 :: real
  assumes "t1 < t2" and "t2 < t3" and "t3 < t4"
  shows "increasing_in_time [(t1, s1), (t2, s2), (t3, s3), (t4, s4)]"
  using assms by (simp add: increasing_in_time_def)

lemma pause_schedule_increasing:
  assumes "0 < max_slope" and "50 < time_total - (1 / 2) / max_slope"
  shows "\<exists>pause. pause_schedule time_total max_slope = Inr pause \<and> increasing_in_time pause"
proof -
  from assms(1) have "0 < (1 / 2) / max_slope" by simp
  then have "time_total - (1 / 2) / max_slope < time_total" by simp
  with assms(2) have
    "increasing_in_time [(0, 0), (50, 1 / 2), (time_total - (1 / 2) / max_slope, 1 / 2), (time_total, 1)]"
    by (intro four_points_increasing) simp_all
  with assms(1) show ?thesis by (simp add: pause_schedule_def)
qed

subsection \<open>Flipping spins\<close>

lemma negated_entries_present:
  "set bits \<subseteq> dom smp \<Longrightarrow>
   negated_entries smp bits = Inr (map (\<lambda>b. (b, - the (smp b))) bits)"
  by (induction bits) auto

lemma negated_entries_missing:
  "\<not> set bits \<subseteq> dom smp \<Longrightarrow> negated_entries smp bits = Inl KeyError"
proof (induction bits)
  case Nil
  then show ?case by simp
next
  case (Cons b bits)
  show ?case
  proof (cases "smp b")
    case None
    then show ?thesis by simp
  next
    case (Some v)
    with Cons.prems have "\<not> set bits \<subseteq> dom smp" by auto
    with Cons.IH Some show ?thesis by simp
  qed
qed

lemma map_of_rev_keyed:
  "map_of (rev (map (\<lambda>b. (b, f b)) bits)) k = (if k \<in> set bits then Some (f k) else None)"
proof -
  have "map_of (rev (map (\<lambda>b. (b, f b)) bits)) = map_of (map (\<lambda>b. (b, f b)) (rev bits))"
    by (simp add: rev_map)
  also have "\<dots> = (Some \<circ> f) |` set (rev bits)"
    by (rule map_of_map_restrict)
  finally show ?thesis by (simp add: restrict_map_def)
qed

lemma flip_bits_present:
  assumes "set bits \<subseteq> dom (h ref)"
  shows "flip_bits h ref bits =
     (h(ref := (\<lambda>k. if k \<in> set bits then map_option uminus (h ref k) else h ref k)), Inr ref)"
proof -
  have "(h ref ++ map_of (rev (map (\<lambda>b. (b, - the (h ref b))) bits))) k
          = (if k \<in> set bits then map_option uminus (h ref k) else h ref k)" for k
  proof (cases "k \<in> set bits")
    case True
    with assms obtain v where "h ref k = Some v" by auto
    with True show ?thesis by (simp add: map_add_def map_of_rev_keyed)
  next
    case False
    then show ?thesis by (simp add: map_add_def map_of_rev_keyed)
  qed
  then have "h ref ++ map_of (rev (map (\<lambda>b. (b, - the (h ref b))) bits))
          = (\<lambda>k. if k \<in> set bits then map_option uminus (h ref k) else h ref k)"
    by (rule ext)
  then show ?thesis
    by (simp add: flip_bits_def negated_entries_present [OF assms])
qed

lemma flip_bits_missing:
  "\<not> set bits \<subseteq> dom (h ref) \<Longrightarrow> flip_bits h ref bits = (h, Inl KeyError)"
  by (simp add: flip_bits_def negated_entries_missing)

lemma get_hamming_distance_map:
  "get_hamming_distance (map f ks) (map g ks) = length (filter (\<lambda>k. f k \<noteq> g k) ks)"
  by (induction ks) (simp_all add: get_hamming_distance_def)

lemma flipped_hamming:
  fixes smp :: "'k sample_dict"
  assumes sub: "set bits \<subseteq> dom smp"
    and nz: "\<forall>k\<in>set bits. smp k \<noteq> Some 0"
    and ks: "distinct ks" "set ks = dom smp"
  shows "get_hamming_distance (map smp ks)
           (map (\<lambda>k. if k \<in> set bits then map_option uminus (smp k) else smp k) ks)
         = card (set bits)"
proof -
  let ?g = "\<lambda>k. if k \<in> set bits then map_option uminus (smp k) else smp k"
  have diff: "smp k \<noteq> ?g k \<longleftrightarrow> k \<in> set bits" if "k \<in> set ks" for k
  proof (cases "k \<in> set bits")
    case True
    with sub obtain v where v: "smp k = Some v" by auto
    with nz True have "v \<noteq> 0" by auto
    then have "v \<noteq> - v" by arith
    with v True show ?thesis by simp
  next
    case False
    then show ?thesis by simp
  qed
  have "filter (\<lambda>k. smp k \<noteq> ?g k) ks = filter (\<lambda>k. k \<in> set bits) ks"
    by (rule filter_cong) (simp_all add: diff)
  then have "get_hamming_distance (map smp ks) (map ?g ks)
               = length (filter (\<lambda>k. k \<in> set bits) ks)"
    by (simp only: get_hamming_distance_map)
  also have "\<dots> = card (set (filter (\<lambda>k. k \<in> set bits) ks))"
    using ks(1) distinct_card [of "filter (\<lambda>k. k \<in> set bits) ks"]
    by (simp only: distinct_filter)
  also have "set (filter (\<lambda>k. k \<in> set bits) ks) = set bits"
    using sub ks(2) by auto
  finally show ?thesis .
qed

subsection \<open>When the cells raise\<close>

lemma flipped_copy_ground:
  assumes "set bits \<subseteq> {..<16}"
  shows "flipped_copy h ref bits = ((h(ref := ground_state))(ref := flipped_state bits), Inr ref)"
proof -
  have "dom ground_state = {..<16}"
    by (auto simp: ground_state_def dom_def)
  with assms have "set bits \<subseteq> dom ((h(ref := ground_state)) ref)" by simp
  from flip_bits_present [of bits "h(ref := ground_state)" ref, OF this]
  have "flip_bits (h(ref := ground_state)) ref bits
          = ((h(ref := ground_state))
               (ref := \<lambda>k. if k \<in> set bits
                          then map_option uminus ((h(ref := ground_state)) ref k)
                          else (h(ref := ground_state)) ref k), Inr ref)" .
  moreover have "(h(ref := ground_state)) ref = ground_state" by simp
  ultimately show ?thesis by (simp only: flipped_copy_def flipped_state_def)
qed

lemma for_loop_raises:
  "for_loop (\<lambda>p acc. case step p of Inl e \<Rightarrow> Inl e | Inr r \<Rightarrow> Inr (upd r acc)) ps acc = Inl e
     \<longleftrightarrow> (\<exists>pre p rest. ps = pre @ p # rest \<and> (\<forall>q\<in>set pre. \<exists>r. step q = Inr r) \<and>
            step p = Inl e)"
proof (induction ps arbitrary: acc)
  case Nil
  show ?case by simp
next
  case (Cons a ps)
  show ?case
  proof (cases "step a")
    case (Inl e')
    have "(\<exists>pre p rest. a # ps = pre @ p # rest \<and> (\<forall>q\<in>set pre. \<exists>r. step q = Inr r) \<and>
            step p = Inl e) \<longleftrightarrow> e' = e"
    proof
      assume "\<exists>pre p rest. a # ps = pre @ p # rest \<and> (\<forall>q\<in>set pre. \<exists>r. step q = Inr r) \<and>
            step p = Inl e"
      then obtain pre p rest where d: "a # ps = pre @ p # rest"
        "\<forall>q\<in>set pre. \<exists>r. step q = Inr r" "step p = Inl e" by blast
      show "e' = e"
      proof (cases pre)
        case Nil
        with d(1,3) Inl show ?thesis by simp
      next
        case (Cons b bs)
        with d(1) have "b = a" by simp
        with Cons d(2) Inl show ?thesis by auto
      qed
    next
      assume "e' = e"
      with Inl have "a # ps = [] @ a # ps \<and> (\<forall>q\<in>set []. \<exists>r. step q = Inr r) \<and> step a = Inl e"
        by simp
      then show "\<exists>pre p rest. a # ps = pre @ p # rest \<and> (\<forall>q\<in>set pre. \<exists>r. step q = Inr r) \<and>
            step p = Inl e" by blast
    qed
    with Inl show ?thesis by simp
  next
    case (Inr r)
    have "(\<exists>pre p rest. a # ps = pre @ p # rest \<and> (\<forall>q\<in>set pre. \<exists>r. step q = Inr r) \<and>
            step p = Inl e)
          \<longleftrightarrow> (\<exists>pre p rest. ps = pre @ p # rest \<and> (\<forall>q\<in>set pre. \<exists>r. step q = Inr r) \<and>
            step p = Inl e)"
    proof
      assume "\<exists>pre p rest. a # ps = pre @ p # rest \<and> (\<forall>q\<in>set pre. \<exists>r. step q = Inr r) \<and>
            step p = Inl e"
      then obtain pre p rest where d: "a # ps = pre @ p # rest"
        "\<forall>q\<in>set pre. \<exists>r. step q = Inr r" "step p = Inl e" by blast
      show "\<exists>pre p rest. ps = pre @ p # rest \<and> (\<forall>q\<in>set pre. \<exists>r. step q = Inr r) \<and>
            step p = Inl e"
      proof (cases pre)
        case Nil
        with d(1,3) Inr show ?thesis by simp
      next
        case (Cons b bs)
        with d(1) have "ps = bs @ p # rest" by simp
        moreover from Cons d(2) have "\<forall>q\<in>set bs. \<exists>r. step q = Inr r" by simp
        ultimately show ?thesis using d(3) by blast
      qed
    next
      assume "\<exists>pre p rest. ps = pre @ p # rest \<and> (\<forall>q\<in>set pre. \<exists>r. step q = Inr r) \<and>
            step p = Inl e"
      then obtain pre p rest where d: "ps = pre @ p # rest"
        "\<forall>q\<in>set pre. \<exists>r. step q = Inr r" "step p = Inl e" by blast
      from d(1) have "a # ps = (a # pre) @ p # rest" by simp
      moreover from d(2) Inr have "\<forall>q\<in>set (a # pre). \<exists>r. step q = Inr r" by simp
      ultimately show "\<exists>pre p rest. a # ps = pre @ p # rest \<and>
            (\<forall>q\<in>set pre. \<exists>r. step q = Inr r) \<and> step p = Inl e"
        using d(3) by blast
    qed
    with Inr Cons.IH [of "upd r acc"] show ?thesis by simp
  qed
qed

lemma connect_cell_raises:
  "connect_cell DWaveSampler solver_name = Inl e \<longleftrightarrow> DWaveSampler = Inl e"
  by (simp add: connect_cell_def split: sum.splits)

lemma max_slope_cell_raises:
  "max_slope_cell min_anneal_time = Inl e \<longleftrightarrow> min_anneal_time = 0 \<and> e = ZeroDivisionError"
  by (auto simp: max_slope_cell_def)

lemma forward_cell_raises:
  "forward_cell add_reduce vars answer = Inl e \<longleftrightarrow> answer = [] \<and> e = IndexError"
proof (cases "answer = []")
  case True
  then show ?thesis by (auto simp: forward_cell_empty)
next
  case False
  from forward_cell_nonempty [OF this, of add_reduce vars] False show ?thesis by simp
qed

lemma reverse_printout_raises:
  "reverse_printout add_reduce answer = Inl e \<longleftrightarrow> answer = [] \<and> e = IndexError"
proof (cases "answer = []")
  case True
  then show ?thesis by (auto simp: reverse_printout_empty)
next
  case False
  from reverse_printout_nonempty [OF this, of add_reduce] False show ?thesis by simp
qed

lemma analyze_raises:
  "analyze add_reduce ground_energy answer = Inl e \<longleftrightarrow> answer = [] \<and> e = ValueError"
proof (cases "answer = []")
  case True
  then show ?thesis by (auto simp: analyze_empty)
next
  case False
  from analyze_nonempty [OF this, of add_reduce ground_energy] False show ?thesis by simp
qed

lemma forward_request_cell_raises:
  "forward_request_cell sample_ising add_reduce variables sampler req = Inl e
     \<longleftrightarrow> sample_ising sampler req = Inl e \<or> (sample_ising sampler req = Inr [] \<and> e = IndexError)"
  by (cases "sample_ising sampler req")
     (auto simp: forward_request_cell_def forward_cell_raises)

lemma reverse_request_cell_raises:
  "reverse_request_cell sample_ising add_reduce sampler req = Inl e
     \<longleftrightarrow> sample_ising sampler req = Inl e \<or> (sample_ising sampler req = Inr [] \<and> e = IndexError)"
  by (cases "sample_ising sampler req")
     (auto simp: reverse_request_cell_def reverse_printout_raises)

lemma py_index_first: "py_index xs 0 = (case xs of [] \<Rightarrow> Inl IndexError | x # _ \<Rightarrow> Inr x)"
  by (cases xs) (simp_all add: py_index_def)

lemma tiling_cell_raises:
  "tiling_cell TilingComposite FixedEmbeddingComposite solver_name sampler st = Inl e
     \<longleftrightarrow> TilingComposite sampler 1 2 4 = Inl e \<or>
         (\<exists>tiled. TilingComposite sampler 1 2 4 = Inr tiled \<and> num_tiles tiled \<noteq> 0 \<and>
            ((embeddings tiled = [] \<and> e = IndexError) \<or>
             (\<exists>embedding others. embeddings tiled = embedding # others \<and>
                FixedEmbeddingComposite sampler embedding = Inl e)))"
  by (auto simp: tiling_cell_def py_index_first split: sum.splits list.splits)

lemma energy_cell_raises:
  "energy_cell ising_energy random_sample = Inl e
     \<longleftrightarrow> ising_energy ground_state = Inl e \<or>
         ((\<exists>ground_energy. ising_energy ground_state = Inr ground_energy) \<and>
          ising_energy random_sample = Inl e)"
  by (auto simp: energy_cell_def split: sum.splits)

lemma initial_state_cell_raises:
  "initial_state_cell ising_energy h ref = Inl e
     \<longleftrightarrow> ising_energy (flipped_state [1, 4, 7, 10, 12, 15]) = Inl e"
proof -
  have "set [1, 4, 7, 10, 12, 15] \<subseteq> {..<16::nat}" by simp
  from flipped_copy_ground [OF this, of h ref] show ?thesis
    by (simp add: initial_state_cell_def split: sum.splits)
qed

lemma sample_block_raises:
  "sample_block sample_ising add_reduce ground_energy req method (st, data) = Inl e
     \<longleftrightarrow> (sampler_embedded st = None \<and> e = NameError) \<or>
         (\<exists>composite. sampler_embedded st = Some composite \<and>
            (sample_ising composite req = Inl e \<or>
             (sample_ising composite req = Inr [] \<and> e = ValueError)))"
  by (auto simp: sample_block_def analyze_raises analyze_empty split: option.splits sum.splits)

lemma sample_block_returns:
  "sample_block sample_ising add_reduce ground_energy req method (st, data) = Inr (st', data')
     \<Longrightarrow> sampler_embedded st' = sampler_embedded st \<and>
         (\<exists>composite answer. sampler_embedded st = Some composite \<and>
            sample_ising composite req = Inr answer \<and> answer \<noteq> [])"
  by (auto simp: sample_block_def analyze_raises analyze_empty split: option.splits sum.splits)

lemma sample_block_total:
  assumes "sampler_embedded st = Some composite" "sample_ising composite req = Inr answer"
    "answer \<noteq> []"
  shows "\<exists>st' data'. sample_block sample_ising add_reduce ground_energy req method (st, data)
           = Inr (st', data') \<and> sampler_embedded st' = Some composite"
proof -
  from analyze_nonempty [OF assms(3), of add_reduce ground_energy]
  obtain a where a: "analyze add_reduce ground_energy answer = Inr a" by blast
  with assms show ?thesis by (simp add: sample_block_def)
qed

lemma sampling_cell_raises:
  "sampling_cell sample_ising add_reduce ground_energy forward_req pause_req reverse_req st = Inl e
     \<longleftrightarrow> (sampler_embedded st = None \<and> e = NameError) \<or>
         (\<exists>composite. sampler_embedded st = Some composite \<and>
            ((sample_ising composite forward_req = Inl e \<or>
              (sample_ising composite forward_req = Inr [] \<and> e = ValueError)) \<or>
             ((\<exists>answer. sample_ising composite forward_req = Inr answer \<and> answer \<noteq> []) \<and>
              ((sample_ising composite pause_req = Inl e \<or>
                (sample_ising composite pause_req = Inr [] \<and> e = ValueError)) \<or>
               ((\<exists>answer. sample_ising composite pause_req = Inr answer \<and> answer \<noteq> []) \<and>
                (sample_ising composite reverse_req = Inl e \<or>
                 (sample_ising composite reverse_req = Inr [] \<and> e = ValueError)))))))"
  (is "?cell = Inl e \<longleftrightarrow> ?unbound \<or> ?bound")
proof (cases "sampler_embedded st")
  case None
  then have "sample_block sample_ising add_reduce ground_energy forward_req
               ''standard forward annealing'' (st, []) = Inl NameError"
    by (simp add: sample_block_def)
  then have "?cell = Inl NameError" by (simp add: sampling_cell_def and_then_def)
  with None show ?thesis by auto
next
  case (Some c)
  let ?raises = "\<lambda>r. sample_ising c r = Inl e \<or> (sample_ising c r = Inr [] \<and> e = ValueError)"
  let ?ok = "\<lambda>r. \<exists>answer. sample_ising c r = Inr answer \<and> answer \<noteq> []"
  have bound: "?bound \<longleftrightarrow> ?raises forward_req \<or> (?ok forward_req \<and>
                 (?raises pause_req \<or> (?ok pause_req \<and> ?raises reverse_req)))"
    using Some by simp
  show ?thesis
  proof (cases "sample_block sample_ising add_reduce ground_energy forward_req
                  ''standard forward annealing'' (st, [])")
    case (Inl e1)
    then have cell: "?cell = Inl e1" by (simp add: sampling_cell_def and_then_def)
    from Inl Some have r1: "sample_ising c forward_req = Inl e1 \<or>
        (sample_ising c forward_req = Inr [] \<and> e1 = ValueError)"
      by (simp add: sample_block_raises)
    then have "\<not> ?ok forward_req" by auto
    moreover from r1 have "?raises forward_req \<longleftrightarrow> e = e1" by auto
    ultimately show ?thesis using cell Some bound by auto
  next
    case (Inr p1)
    obtain st1 data1 where p1: "p1 = (st1, data1)" by (cases p1)
    from sample_block_returns [OF Inr [unfolded p1]] Some
    have s1: "sampler_embedded st1 = Some c" and ok1: "?ok forward_req" by auto
    from ok1 have nr1: "\<not> ?raises forward_req" by auto
    show ?thesis
    proof (cases "sample_block sample_ising add_reduce ground_energy pause_req
                    ''forward annealing with a pause'' (st1, data1)")
      case (Inl e2)
      with Inr p1 have cell: "?cell = Inl e2" by (simp add: sampling_cell_def and_then_def)
      from Inl s1 have r2: "sample_ising c pause_req = Inl e2 \<or>
          (sample_ising c pause_req = Inr [] \<and> e2 = ValueError)"
        by (simp add: sample_block_raises)
      then have "\<not> ?ok pause_req" by auto
      moreover from r2 have "?raises pause_req \<longleftrightarrow> e = e2" by auto
      ultimately show ?thesis using cell Some bound ok1 nr1 by auto
    next
      case (Inr p2)
      note second = this
      obtain st2 data2 where p2: "p2 = (st2, data2)" by (cases p2)
      from sample_block_returns [OF second [unfolded p2]] s1
      have s2: "sampler_embedded st2 = Some c" and ok2: "?ok pause_req" by auto
      from ok2 have nr2: "\<not> ?raises pause_req" by auto
      have cell: "?cell = sample_block sample_ising add_reduce ground_energy reverse_req
                    ''reverse annealing'' (st2, data2)"
        using \<open>sample_block sample_ising add_reduce ground_energy forward_req
                  ''standard forward annealing'' (st, []) = Inr p1\<close> p1 second p2
        by (simp add: sampling_cell_def and_then_def)
      have "?cell = Inl e \<longleftrightarrow> ?raises reverse_req"
        unfolding cell using s2 by (simp add: sample_block_raises)
      then show ?thesis using Some bound ok1 nr1 ok2 nr2 by auto
    qed
  qed
qed

lemma schedule_cell_raises:
  "schedule_cell admissible ramp_back_slope max_slope = Inl e
     \<longleftrightarrow> make_reverse_anneal_schedule admissible ramp_back_slope (45 / 100) 80 max_slope = Inl e \<or>
         (\<exists>reverse_schedule.
            make_reverse_anneal_schedule admissible ramp_back_slope (45 / 100) 80 max_slope
              = Inr reverse_schedule \<and>
            length reverse_schedule \<le> 3 \<and> e = IndexError)"
  by (auto simp: schedule_cell_def py_index_def split: sum.splits if_splits)

lemma negated_entries_raises:
  "negated_entries smp bits = Inl e \<longleftrightarrow> \<not> set bits \<subseteq> dom smp \<and> e = KeyError"
proof (cases "set bits \<subseteq> dom smp")
  case True
  from negated_entries_present [OF this] True show ?thesis by simp
next
  case False
  from negated_entries_missing [OF this] False show ?thesis by auto
qed

lemma flip_bits_raises:
  "snd (flip_bits h ref spin_bits) = Inl e \<longleftrightarrow> \<not> set spin_bits \<subseteq> dom (h ref) \<and> e = KeyError"
proof (cases "set spin_bits \<subseteq> dom (h ref)")
  case True
  from flip_bits_present [of spin_bits h ref, OF this] True show ?thesis by simp
next
  case False
  from flip_bits_missing [of spin_bits h ref, OF this] False show ?thesis by auto
qed

lemma modulating_request_raises:
  "modulating_request admissible ramp_back_slope sample_ising reverse_request add_reduce
       max_slope composite_name initial_state (s_target, hold_time) = Inl e
     \<longleftrightarrow> make_reverse_anneal_schedule admissible ramp_back_slope s_target hold_time max_slope = Inl e \<or>
         (\<exists>schedule.
            make_reverse_anneal_schedule admissible ramp_back_slope s_target hold_time max_slope
              = Inr schedule \<and>
            ((composite_name = None \<and> e = NameError) \<or>
             (\<exists>composite. composite_name = Some composite \<and>
                (sample_ising composite (reverse_request schedule initial_state) = Inl e \<or>
                 (\<exists>modulating_answer.
                    sample_ising composite (reverse_request schedule initial_state)
                      = Inr (modulating_answer, None) \<and> e = KeyError)))))"
  by (auto simp: modulating_request_def split: sum.splits option.splits prod.splits)

lemma modulating_cell_raises:
  "modulating_cell admissible ramp_back_slope sample_ising reverse_request add_reduce
       max_slope composite_name h ref = Inl e
     \<longleftrightarrow> (\<exists>pre p rest. List.product s_target_vals hold_time_vals = pre @ p # rest \<and>
            (\<forall>q\<in>set pre. \<exists>r. modulating_request admissible ramp_back_slope sample_ising
                                 reverse_request add_reduce max_slope composite_name
                                 (flipped_state [0, 7, 15]) q = Inr r) \<and>
            modulating_request admissible ramp_back_slope sample_ising reverse_request
              add_reduce max_slope composite_name (flipped_state [0, 7, 15]) p = Inl e)"
proof -
  let ?request = "modulating_request admissible ramp_back_slope sample_ising reverse_request
                    add_reduce max_slope composite_name (flipped_state [0, 7, 15])"
  let ?upd = "\<lambda>(access_time, row) (QPU_time, data_rows).
                (case QPU_time of None \<Rightarrow> None | Some t \<Rightarrow> to_double (t + access_time),
                 data_rows @ [row])"
  have "set [0, 7, 15] \<subseteq> {..<16::nat}" by simp
  from flipped_copy_ground [OF this, of h ref]
  have "modulating_cell admissible ramp_back_slope sample_ising reverse_request add_reduce
          max_slope composite_name h ref =
        for_loop (\<lambda>p acc. case ?request p of Inl e \<Rightarrow> Inl e | Inr r \<Rightarrow> Inr (?upd r acc))
          (List.product s_target_vals hold_time_vals) (Some 0, [])"
    by (simp add: modulating_cell_def split_def cong: sum.case_cong)
  then show ?thesis by (simp only: for_loop_raises)
qed

lemma exercise_cell_raises:
  "exercise_cell admissible ramp_back_slope sample_ising reverse_request
       max_slope ground_energy composite_name h ref = Inl e
     \<longleftrightarrow> make_reverse_anneal_schedule admissible ramp_back_slope (45 / 100) 40 max_slope = Inl e \<or>
         (\<exists>schedule.
            make_reverse_anneal_schedule admissible ramp_back_slope (45 / 100) 40 max_slope
              = Inr schedule \<and>
            ((composite_name = None \<and> e = NameError) \<or>
             (\<exists>composite. composite_name = Some composite \<and>
                (sample_ising composite
                   (reverse_request schedule
                      (flipped_state [1, 2, 5, 6, 9, 10, 13, 14, 15])) = Inl e \<or>
                 (sample_ising composite
                    (reverse_request schedule
                       (flipped_state [1, 2, 5, 6, 9, 10, 13, 14, 15])) = Inr [] \<and>
                  e = IndexError)))))"
proof -
  have "set [1, 2, 5, 6, 9, 10, 13, 14, 15] \<subseteq> {..<16::nat}" by simp
  from flipped_copy_ground [OF this, of h ref] show ?thesis
    by (auto simp: exercise_cell_def py_index_def py_index_first
             split: sum.splits option.splits list.splits)
qed

lemma tiling_cell_no_tile:
  assumes "TilingComposite sampler 1 2 4 = Inr tiled" "num_tiles tiled = 0"
  shows "tiling_cell TilingComposite FixedEmbeddingComposite solver_name sampler st =
           Inr (st\<lparr>printed := printed st @ [Unable_to_find solver_name]\<rparr>)"
  using assms by (simp add: tiling_cell_def)

subsection \<open>The error of a rounding\<close>

lemma rint_error: "\<bar>of_int (rint y) - y\<bar> \<le> 1 / 2"
proof -
  have "of_int \<lfloor>y\<rfloor> \<le> y" "y < of_int \<lfloor>y\<rfloor> + 1" by linarith+
  then show ?thesis by (auto simp: rint_eval)
qed

lemma ulp_le:
  assumes "2 powr (- 1022) \<le> \<bar>x\<bar>"
  shows "2 powr of_int (ulp_exponent x) \<le> \<bar>x\<bar> / 2 ^ 52"
proof -
  have "(0::real) < 2 powr (- 1022)" by simp
  with assms have pos: "0 < \<bar>x\<bar>" by linarith
  from assms pos have "- 1022 \<le> log 2 \<bar>x\<bar>" by (simp add: le_log_iff)
  then have "(- 1022 :: int) \<le> \<lfloor>log 2 \<bar>x\<bar>\<rfloor>" by (simp add: le_floor_iff)
  then have e: "ulp_exponent x = \<lfloor>log 2 \<bar>x\<bar>\<rfloor> - 52" by (simp add: ulp_exponent_def)
  have "(2::real) powr of_int (\<lfloor>log 2 \<bar>x\<bar>\<rfloor> - 52) = 2 powr (of_int \<lfloor>log 2 \<bar>x\<bar>\<rfloor> - 52)" by simp
  also have "\<dots> = 2 powr of_int \<lfloor>log 2 \<bar>x\<bar>\<rfloor> / 2 powr 52" by (rule powr_diff)
  also have "(2::real) powr 52 = 2 ^ 52"
    using powr_realpow [of "2::real" 52] by simp
  finally have u: "(2::real) powr of_int (ulp_exponent x) = 2 powr of_int \<lfloor>log 2 \<bar>x\<bar>\<rfloor> / 2 ^ 52"
    unfolding e .
  have "of_int \<lfloor>log 2 \<bar>x\<bar>\<rfloor> \<le> log 2 \<bar>x\<bar>" by simp
  then have "2 powr of_int \<lfloor>log 2 \<bar>x\<bar>\<rfloor> \<le> 2 powr log 2 \<bar>x\<bar>" by simp
  also from pos have "\<dots> = \<bar>x\<bar>" by simp
  finally show ?thesis unfolding u by (simp add: divide_right_mono)
qed

lemma round_double_error:
  assumes "2 powr (- 1022) \<le> \<bar>x\<bar>"
  shows "\<bar>round_double x - x\<bar> \<le> \<bar>x\<bar> / 2 ^ 53"
proof -
  define u :: real where "u = 2 powr of_int (ulp_exponent x)"
  have upos: "0 < u" by (simp add: u_def)
  have "(0::real) < 2 powr (- 1022)" by simp
  with assms have nz: "x \<noteq> 0" by auto
  then have rd: "round_double x = of_int (rint (x / u)) * u" by (simp add: round_double_def u_def)
  have "round_double x - x = (of_int (rint (x / u)) - x / u) * u"
    unfolding rd using upos by (simp add: algebra_simps)
  then have "\<bar>round_double x - x\<bar> = \<bar>of_int (rint (x / u)) - x / u\<bar> * u"
    using upos by (simp add: abs_mult)
  also have "\<dots> \<le> (1 / 2) * u"
    using rint_error [of "x / u"] upos by (intro mult_right_mono) simp_all
  also have "\<dots> \<le> (1 / 2) * (\<bar>x\<bar> / 2 ^ 52)"
    using ulp_le [OF assms] unfolding u_def by (intro mult_left_mono) simp_all
  also have "\<dots> = \<bar>x\<bar> / 2 ^ 53" by simp
  finally show ?thesis .
qed

lemma to_double_near:
  assumes "1 / 4000 \<le> x" "x \<le> 2000"
  shows "\<exists>d. to_double x = Some d \<and> \<bar>d - x\<bar> \<le> 2000 / 2 ^ 53"
proof -
  have "(2::real) powr (- 1022) \<le> 2 powr (- 12)" by (rule powr_mono) simp_all
  also have "(2::real) powr (- 12) = 1 / 2 ^ 12"
    using powr_realpow [of "2::real" 12] by (simp add: powr_minus_divide)
  also have "\<dots> \<le> 1 / 4000" by simp
  finally have "2 powr (- 1022) \<le> \<bar>x\<bar>" using assms(1) by linarith
  from round_double_error [OF this] assms have err: "\<bar>round_double x - x\<bar> \<le> x / 2 ^ 53" by simp
  also from assms(2) have "\<dots> \<le> 2000 / 2 ^ 53" by (simp add: divide_right_mono)
  finally have near: "\<bar>round_double x - x\<bar> \<le> 2000 / 2 ^ 53" .
  then have "\<bar>round_double x\<bar> \<le> \<bar>x\<bar> + 2000 / 2 ^ 53" by linarith
  also from assms have "\<dots> \<le> 2001" by simp
  also have "(2001::real) < 2 ^ 1024" by simp
  finally have "to_double x = Some (round_double x)" by (simp add: to_double_def)
  with near show ?thesis by simp
qed

section \<open>Hamming distances of consecutive samples\<close>

text \<open>
  C1.  For an array of \<open>n \<ge> 1\<close> samples over \<open>m\<close> variables,
  \<open>get_hamming_distances\<close> returns exactly \<open>n - 1\<close> values, and its \<open>i\<close>-th value is
  the number of variable positions at which samples \<open>i\<close> and \<open>i + 1\<close> differ.
\<close>

theorem get_hamming_distances_consecutive:
  assumes "sols \<noteq> []" and "rectangular m sols"
  shows "length (get_hamming_distances sols) + 1 = length sols \<and>
         (\<forall>i. i + 1 < length sols \<longrightarrow>
            get_hamming_distances sols ! i =
              card {j. j < m \<and> sols ! i ! j \<noteq> sols ! (i + 1) ! j})"
proof (intro conjI allI impI)
  from assms(1) show "length (get_hamming_distances sols) + 1 = length sols"
    by (cases sols) (simp_all add: get_hamming_distances_length)
next
  fix i assume i: "i + 1 < length sols"
  from assms(2) i have "length (sols ! i) = m" "length (sols ! (i + 1)) = m"
    by (simp_all add: rectangular_def list_all_length)
  then show "get_hamming_distances sols ! i =
           card {j. j < m \<and> sols ! i ! j \<noteq> sols ! (i + 1) ! j}"
    using i get_hamming_distance_card [of "sols ! i" "sols ! (i + 1)"]
    by (simp add: get_hamming_distances_nth)
qed

theorem get_hamming_distances_consecutive_witness:
  "length (get_hamming_distances [[1, -1, 1], [1, 1, 1], [-1, 1, -1 :: int]]) + 1 = 3 \<and>
   get_hamming_distances [[1, -1, 1], [1, 1, 1], [-1, 1, -1 :: int]] ! 1 =
     card {j. j < 3 \<and> [[1, -1, 1], [1, 1, 1], [-1, 1, -1 :: int]] ! 1 ! j
                       \<noteq> [[1, -1, 1], [1, 1, 1], [-1, 1, -1 :: int]] ! 2 ! j} \<and>
   get_hamming_distances [[1, -1, 1], [1, 1, 1], [-1, 1, -1 :: int]] = [1, 2]"
proof -
  let ?sols = "[[1, -1, 1], [1, 1, 1], [-1, 1, -1 :: int]]"
  have ne: "?sols \<noteq> []" by simp
  have rect: "rectangular 3 ?sols" by (simp add: rectangular_def)
  note th = get_hamming_distances_consecutive [OF ne rect]
  have a: "length (get_hamming_distances ?sols) + 1 = 3" using th by simp
  have "(1::nat) + 1 < length ?sols" by simp
  with th have b: "get_hamming_distances ?sols ! 1 =
     card {j. j < 3 \<and> ?sols ! 1 ! j \<noteq> ?sols ! (1 + 1) ! j}" by blast
  have c: "get_hamming_distances ?sols = [1, 2]"
    by (simp add: get_hamming_distances_def get_hamming_distance_def)
  have "(1::nat) + 1 = 2" by simp
  with a b c show ?thesis by metis
qed

section \<open>The ground-state ratio of \<^verbatim>\<open>analyze\<close>\<close>



section \<open>The reported lowest energy\<close>

text \<open>
  C3 (amended).  For every non-empty result set, the "Lowest energy found" printouts,
  which read the first record of an answer in histogram order, are the minimum of the
  energies over all returned samples; \<^verbatim>\<open>analyze\<close>'s \<^verbatim>\<open>energy_best\<close> is that minimum
  rounded to two decimals by \<^verbatim>\<open>round(., 2)\<close> in double precision, which is the minimum
  itself when the minimum is a whole number (of magnitude below \<open>2^53 / 100\<close>), as the
  energies of the problems of the notebook are.
\<close>

theorem lowest_energy_reported:
  assumes "answer \<noteq> []"
  shows "(\<exists>a. analyze add_reduce ground_energy answer = Inr a \<and>
            energy_best a = round2 (Min (set (map energy answer))) \<and>
            ((\<exists>k::int. Min (set (map energy answer)) = of_int k \<and> \<bar>k\<bar> * 100 < 2 ^ 53) \<longrightarrow>
               energy_best a = Some (Min (set (map energy answer))))) \<and>
         (histogram_order answer \<longrightarrow>
            (\<exists>rep. forward_cell add_reduce vars answer = Inr rep \<and>
               lowest_energy rep = Min (set (map energy answer))) \<and>
            (\<exists>m s. reverse_printout add_reduce answer = Inr (Min (set (map energy answer)), m, s)))"
proof -
  let ?mn = "Min (set (map energy answer))"
  have srt: "energy (answer ! 0) = ?mn" if "histogram_order answer"
    using sorted_hd_Min [of "map energy answer"] that assms
    by (simp add: histogram_order_def)
  have rnd: "round2 ?mn = Some ?mn" if "\<exists>k::int. ?mn = of_int k \<and> \<bar>k\<bar> * 100 < 2 ^ 53"
  proof -
    from that obtain k :: int where k: "?mn = of_int k" "\<bar>k\<bar> * 100 < 2 ^ 53" by blast
    from round2_of_int [OF k(2)] show ?thesis unfolding k(1) .
  qed
  have A: "\<exists>a. analyze add_reduce ground_energy answer = Inr a \<and>
            energy_best a = round2 ?mn \<and>
            ((\<exists>k::int. ?mn = of_int k \<and> \<bar>k\<bar> * 100 < 2 ^ 53) \<longrightarrow> energy_best a = Some ?mn)"
    unfolding analyze_nonempty [OF assms] using rnd by simp
  have B: "\<exists>rep. forward_cell add_reduce vars answer = Inr rep \<and> lowest_energy rep = ?mn"
    if "histogram_order answer"
    unfolding forward_cell_nonempty [OF assms] using srt [OF that] by simp
  have C: "\<exists>m s. reverse_printout add_reduce answer = Inr (?mn, m, s)"
    if "histogram_order answer"
    unfolding reverse_printout_nonempty [OF assms] using srt [OF that] by simp
  from A B C show ?thesis by blast
qed

theorem lowest_energy_reported_witness:
  "example_histogram_answer \<noteq> [] \<and>
   histogram_order example_histogram_answer \<and>
   Min (set (map energy example_histogram_answer)) = of_int 0 \<and> \<bar>0 :: int\<bar> * 100 < 2 ^ 53 \<and>
   (\<exists>a. analyze example_add_reduce (-20) example_histogram_answer = Inr a \<and>
      energy_best a = Some 0) \<and>
   (\<exists>rep. forward_cell example_add_reduce [0::nat] example_histogram_answer = Inr rep \<and>
      lowest_energy rep = 0) \<and>
   (\<exists>m s. reverse_printout example_add_reduce example_histogram_answer = Inr (0, m, s))"
proof -
  have ne: "example_histogram_answer \<noteq> []" by (simp add: example_histogram_answer_def)
  have srt: "histogram_order example_histogram_answer"
    by (simp add: histogram_order_def example_histogram_answer_def)
  have mn: "Min (set (map energy example_histogram_answer)) = 0"
    by (simp add: example_histogram_answer_def)
  have k0: "Min (set (map energy example_histogram_answer)) = of_int 0 \<and> \<bar>0 :: int\<bar> * 100 < 2 ^ 53"
    unfolding mn by simp
  then have k: "\<exists>k::int. Min (set (map energy example_histogram_answer)) = of_int k \<and>
                  \<bar>k\<bar> * 100 < 2 ^ 53" ..
  note th = lowest_energy_reported
    [OF ne, where add_reduce = example_add_reduce and ground_energy = "-20" and vars = "[0::nat]"]
  from th k obtain a where
    "analyze example_add_reduce (-20) example_histogram_answer = Inr a"
    "energy_best a = Some (Min (set (map energy example_histogram_answer)))"
    by blast
  then have A: "\<exists>a. analyze example_add_reduce (-20) example_histogram_answer = Inr a \<and>
                  energy_best a = Some 0"
    unfolding mn by blast
  from th srt obtain rep where
    "forward_cell example_add_reduce [0::nat] example_histogram_answer = Inr rep"
    "lowest_energy rep = Min (set (map energy example_histogram_answer))"
    by blast
  then have B: "\<exists>rep. forward_cell example_add_reduce [0::nat] example_histogram_answer = Inr rep \<and>
                  lowest_energy rep = 0"
    unfolding mn by blast
  from th srt obtain m s where
    "reverse_printout example_add_reduce example_histogram_answer
       = Inr (Min (set (map energy example_histogram_answer)), m, s)"
    by blast
  then have C: "\<exists>m s. reverse_printout example_add_reduce example_histogram_answer = Inr (0, m, s)"
    unfolding mn by blast
  from ne srt k0 A B C show ?thesis by (intro conjI) simp_all
qed

text \<open>
  The claim as first stated fails for \<^verbatim>\<open>analyze\<close> on a result set whose lowest energy
  has more than two decimals: for the energy 0.125 the product with 100 is 12.5, which
  rounds to 12, and \<^verbatim>\<open>energy_best\<close> is the double nearest to 0.12.
\<close>

theorem lowest_energy_reported_counterexample:
  "map_sum id energy_best (analyze example_add_reduce (-20) example_eighth_answer)
     = Inr (Some (1080863910568919 / 9007199254740992)) \<and>
   Min (set (map energy example_eighth_answer)) = 1 / 8"
proof -
  have "rint (25 / 2) = 12" by (simp add: rint_eval)
  then have "round2 (1 / 8) = Some (1080863910568919 / 9007199254740992)"
    using double_25_2 double_12_100 by (simp add: round2_def)
  then show ?thesis
    by (simp add: analyze_def first_def example_eighth_answer_def)
qed

section \<open>The reported average and standard deviation of the energy\<close>




section \<open>The four breakpoints of the reverse-anneal schedule\<close>

text \<open>
  C5.  For every admissible \<open>s_target\<close>, \<open>hold_time\<close> and \<open>ramp_up_slope\<close>,
  \<open>make_reverse_anneal_schedule\<close> returns a schedule of exactly four breakpoints: the
  lookup of the breakpoint of index 3 succeeds, it is the last breakpoint, and its time is
  the total time of the schedule (the times of the reverse ramp, the hold and the ramp up
  added).
\<close>

theorem reverse_schedule_four_points:
  assumes "admissible s_target hold_time ramp_up_slope"
  shows "\<exists>sched. make_reverse_anneal_schedule admissible ramp_back_slope s_target hold_time ramp_up_slope
                   = Inr sched \<and>
           length sched = 4 \<and>
           py_index sched 3 = Inr (last sched) \<and>
           fst (last sched) =
             (1 - s_target) / ramp_back_slope + hold_time + (1 - s_target) / ramp_up_slope"
  unfolding make_reverse_anneal_schedule_admissible
    [of admissible s_target hold_time ramp_up_slope ramp_back_slope, OF assms]
  by (simp add: py_index_def)

theorem reverse_schedule_four_points_witness:
  "example_admissible (45 / 100) 80 2 \<and>
   (\<exists>sched. make_reverse_anneal_schedule example_admissible (1 / 5) (45 / 100) 80 2 = Inr sched \<and>
      length sched = 4 \<and>
      py_index sched 3 = Inr (last sched) \<and>
      fst (last sched) = 3321 / 40)"
proof -
  have adm: "example_admissible (45 / 100) 80 2" by (simp add: example_admissible_def)
  from reverse_schedule_four_points [of example_admissible "45 / 100" 80 2 "1 / 5", OF adm]
  obtain sched where
    sched: "make_reverse_anneal_schedule example_admissible (1 / 5) (45 / 100) 80 2 = Inr sched"
      "length sched = 4" "py_index sched 3 = Inr (last sched)"
      "fst (last sched) = (1 - 45 / 100) / (1 / 5) + 80 + (1 - 45 / 100) / 2"
    by blast
  have "(1 - 45 / 100) / (1 / 5) + 80 + (1 - 45 / 100) / 2 = (3321 / 40 :: real)" by simp
  with sched(4) have "fst (last sched) = 3321 / 40" by (simp only:)
  with adm sched(1,2,3) show ?thesis by blast
qed

section \<open>Breakpoints in increasing order of time\<close>

text \<open>
  C6.  The schedules the notebook builds have breakpoints in strictly increasing order
  of time: the reverse-anneal schedule for a target below 1, a positive hold time and the
  positive slope \<open>max_slope\<close> (every call of the notebook is of this kind), and the
  \<open>pause_schedule\<close> built from the \<open>time_total\<close> of the schedule cell, for every positive
  \<open>max_slope\<close>.
\<close>

theorem schedules_increasing_in_time:
  assumes "0 < ramp_back_slope" and "0 < max_slope"
    and "s_target < 1" and "0 < hold_time"
    and "admissible s_target hold_time max_slope"
    and "admissible (45 / 100) 80 max_slope"
  shows "(\<exists>sched. make_reverse_anneal_schedule admissible ramp_back_slope s_target hold_time max_slope
                    = Inr sched \<and> increasing_in_time sched) \<and>
         (\<exists>reverse_schedule time_total pause.
            schedule_cell admissible ramp_back_slope max_slope = Inr (reverse_schedule, time_total) \<and>
            increasing_in_time reverse_schedule \<and>
            pause_schedule time_total max_slope = Inr pause \<and>
            increasing_in_time pause)"
proof -
  from assms(1,3) have t_back: "0 < (1 - s_target) / ramp_back_slope" by simp
  from assms(2,3) have t_up: "0 < (1 - s_target) / max_slope" by simp
  have "increasing_in_time
          [(0, 1),
           ((1 - s_target) / ramp_back_slope, s_target),
           ((1 - s_target) / ramp_back_slope + hold_time, s_target),
           ((1 - s_target) / ramp_back_slope + hold_time + (1 - s_target) / max_slope, 1)]"
    using t_back t_up assms(4) by (intro four_points_increasing) simp_all
  then have A: "\<exists>sched. make_reverse_anneal_schedule admissible ramp_back_slope s_target hold_time max_slope
                    = Inr sched \<and> increasing_in_time sched"
    unfolding make_reverse_anneal_schedule_admissible
      [of admissible s_target hold_time max_slope ramp_back_slope, OF assms(5)]
    by simp
  define tb where "tb = (1 - 45 / 100) / ramp_back_slope"
  define tu where "tu = (1 - 45 / 100) / max_slope"
  define tt where "tt = tb + 80 + tu"
  from assms(1) have tb: "0 < tb" by (simp add: tb_def)
  from assms(2) have tu: "0 < tu" by (simp add: tu_def)
  have cell: "schedule_cell admissible ramp_back_slope max_slope
                = Inr ([(0, 1), (tb, 45 / 100), (tb + 80, 45 / 100), (tt, 1)], tt)"
    unfolding schedule_cell_admissible [of admissible max_slope ramp_back_slope, OF assms(6)]
      tb_def tu_def tt_def by simp
  have rev: "increasing_in_time [(0, 1), (tb, 45 / 100), (tb + 80, 45 / 100), (tt, 1)]"
    using tb tu unfolding tt_def by (intro four_points_increasing) simp_all
  have "tu - (1 / 2) / max_slope = (5 / 100) / max_slope"
    unfolding tu_def by (simp add: field_simps)
  moreover from assms(2) have "0 < (5 / 100) / max_slope" by simp
  ultimately have "0 < tu - (1 / 2) / max_slope" by simp
  with tb have "50 < tt - (1 / 2) / max_slope" unfolding tt_def by simp
  from pause_schedule_increasing [OF assms(2) this] obtain pause where
    pause: "pause_schedule tt max_slope = Inr pause" "increasing_in_time pause" by blast
  from cell rev pause have B: "\<exists>reverse_schedule time_total pause.
            schedule_cell admissible ramp_back_slope max_slope = Inr (reverse_schedule, time_total) \<and>
            increasing_in_time reverse_schedule \<and>
            pause_schedule time_total max_slope = Inr pause \<and>
            increasing_in_time pause"
    by blast
  from A B show ?thesis ..
qed

theorem schedules_increasing_in_time_witness:
  "(0::real) < 1 / 5 \<and> (0::real) < 2 \<and> (3 / 10 :: real) < 1 \<and> (0::real) < 10 \<and>
   example_admissible (3 / 10) 10 2 \<and> example_admissible (45 / 100) 80 2 \<and>
   (\<exists>sched. make_reverse_anneal_schedule example_admissible (1 / 5) (3 / 10) 10 2 = Inr sched \<and>
      increasing_in_time sched) \<and>
   (\<exists>reverse_schedule time_total pause.
      schedule_cell example_admissible (1 / 5) 2 = Inr (reverse_schedule, time_total) \<and>
      increasing_in_time reverse_schedule \<and>
      pause_schedule time_total 2 = Inr pause \<and>
      increasing_in_time pause)"
proof -
  have h: "(0::real) < 1 / 5" "(0::real) < 2" "(3 / 10 :: real) < 1" "(0::real) < 10"
    by simp_all
  have adm: "example_admissible (3 / 10) 10 2" "example_admissible (45 / 100) 80 2"
    by (simp_all add: example_admissible_def)
  from schedules_increasing_in_time
    [of "1 / 5" 2 "3 / 10" 10 example_admissible, OF h adm] h adm
  show ?thesis by (intro conjI) simp_all
qed

text \<open>
  The order of the breakpoints survives the rounding of the stored pause schedule: for a
  maximum slope of at most 1000 per microsecond and a total time of at most 2000
  microseconds, when the third breakpoint lies at 51 microseconds or later in exact
  arithmetic, the quotient and the difference are finite doubles and the stored times
  increase strictly.
\<close>

theorem pause_schedule_stored_increasing:
  assumes "0 < max_slope" "max_slope \<le> 1000"
    and "51 \<le> time_total - (1 / 2) / max_slope" "time_total \<le> 2000"
  shows "\<exists>b. pause_schedule_stored time_total max_slope
               = Inr [(Some 0, 0), (Some 50, 1 / 2), (Some b, 1 / 2), (Some time_total, 1)] \<and>
             increasing_in_time [(0, 0), (50, 1 / 2), (b, 1 / 2), (time_total, 1)]"
proof -
  define x where "x = (1 / 2) / max_slope"
  from assms(1,2) have "1 / 1000 \<le> 1 / max_slope" by (simp add: frac_le)
  then have xlo: "1 / 2000 \<le> x" by (simp add: x_def)
  from assms(3,4) have xhi: "x \<le> 1949" by (simp add: x_def)
  from xlo xhi to_double_near [of x] obtain q
    where q: "to_double x = Some q" "\<bar>q - x\<bar> \<le> 2000 / 2 ^ 53" by auto
  have tiny: "(2000::real) / 2 ^ 53 < 1 / 8000" by simp
  from q(2) tiny xlo have qlo: "1 / 4000 < q" by linarith
  from q(2) tiny assms(3) have ylo: "50 + 1 / 2 \<le> time_total - q" unfolding x_def by linarith
  from qlo assms(4) have yhi: "time_total - q \<le> 2000" by linarith
  from ylo yhi to_double_near [of "time_total - q"] obtain b
    where b: "to_double (time_total - q) = Some b" "\<bar>b - (time_total - q)\<bar> \<le> 2000 / 2 ^ 53"
    by auto
  from b(2) tiny ylo have "50 < b" by linarith
  moreover from b(2) tiny qlo have "b < time_total" by linarith
  moreover from assms(1) q(1) b(1)
  have "pause_schedule_stored time_total max_slope
          = Inr [(Some 0, 0), (Some 50, 1 / 2), (Some b, 1 / 2), (Some time_total, 1)]"
    by (simp add: pause_schedule_stored_def x_def)
  ultimately show ?thesis by (simp add: increasing_in_time_def)
qed

theorem pause_schedule_stored_increasing_witness:
  "(0::real) < 100 \<and> (100::real) \<le> 1000 \<and> (51::real) \<le> 83 - (1 / 2) / 100 \<and> (83::real) \<le> 2000 \<and>
   pause_schedule_stored 83 100
     = Inr [(Some 0, 0), (Some 50, 1 / 2),
            (Some (730031740378153 / 8796093022208), 1 / 2), (Some 83, 1)] \<and>
   increasing_in_time [(0, 0), (50, 1 / 2), (730031740378153 / 8796093022208, 1 / 2), (83, 1)]"
proof -
  have "(1 / 2) / 100 = (1 / 200 :: real)" by simp
  then have stored: "pause_schedule_stored 83 100
     = Inr [(Some 0, 0), (Some 50, 1 / 2),
            (Some (730031740378153 / 8796093022208), 1 / 2), (Some 83, 1)]"
    using double_1_200 double_83_minus by (simp add: pause_schedule_stored_def)
  from pause_schedule_stored_increasing [of 100 83] obtain b
    where "pause_schedule_stored 83 100
             = Inr [(Some 0, 0), (Some 50, 1 / 2), (Some b, 1 / 2), (Some 83, 1)]"
      and inc: "increasing_in_time [(0, 0), (50, 1 / 2), (b, 1 / 2), (83, 1)]"
    by auto
  with stored have "b = 730031740378153 / 8796093022208" by simp
  with inc stored show ?thesis by simp
qed

section \<open>Exceptions are not handled\<close>

text \<open>
  C7.  No cell and no function of the notebook catches, changes or recovers from an
  exception.  For each cell that calls the vendor's SDK, and for \<open>analyze\<close> and
  \<open>flip_bits\<close>, the cell ends with the exception \<open>e\<close> exactly when one of its calls raises
  \<open>e\<close> after the calls before it have returned: the constructor of the sampler, the
  helper that makes the schedule, every \<open>sample_ising\<close>, \<open>ising_energy\<close>,
  \<open>TilingComposite\<close> and \<open>FixedEmbeddingComposite\<close>, the division by the minimum anneal
  time, the subscripts \<open>[0]\<close>, \<open>[3]\<close> and \<open>['timing']\<close>, \<open>answer.first\<close> on an empty answer,
  \<open>sample[bit]\<close> on a missing key and the unbound name \<open>sampler_embedded\<close>.  In the loop
  of the parameter sweep the first request that raises ends the loop.  The one guard,
  the test of \<open>num_tiles\<close>, prints a line when no tile is found and leaves
  \<open>sampler_embedded\<close> as it was; the sampling cell then raises \<open>NameError\<close> on the unbound
  name.
\<close>

theorem exceptions_propagate:
  "(connect_cell DWaveSampler name_of = Inl e \<longleftrightarrow> DWaveSampler = Inl e) \<and>
   (max_slope_cell min_anneal_time = Inl e \<longleftrightarrow> min_anneal_time = 0 \<and> e = ZeroDivisionError) \<and>
   (schedule_cell admissible ramp_back_slope max_slope = Inl e
      \<longleftrightarrow> make_reverse_anneal_schedule admissible ramp_back_slope (45 / 100) 80 max_slope = Inl e \<or>
          (\<exists>reverse_schedule.
             make_reverse_anneal_schedule admissible ramp_back_slope (45 / 100) 80 max_slope
               = Inr reverse_schedule \<and>
             length reverse_schedule \<le> 3 \<and> e = IndexError)) \<and>
   (forward_request_cell sampler_sample_ising add_reduce variables sampler forward_params = Inl e
      \<longleftrightarrow> sampler_sample_ising sampler forward_params = Inl e \<or>
          (sampler_sample_ising sampler forward_params = Inr [] \<and> e = IndexError)) \<and>
   (reverse_request_cell sampler_sample_ising add_reduce sampler reverse_params = Inl e
      \<longleftrightarrow> sampler_sample_ising sampler reverse_params = Inl e \<or>
          (sampler_sample_ising sampler reverse_params = Inr [] \<and> e = IndexError)) \<and>
   (energy_cell ising_energy random_sample = Inl e
      \<longleftrightarrow> ising_energy ground_state = Inl e \<or>
          ((\<exists>ground_energy. ising_energy ground_state = Inr ground_energy) \<and>
           ising_energy random_sample = Inl e)) \<and>
   (initial_state_cell ising_energy h ref = Inl e
      \<longleftrightarrow> ising_energy (flipped_state [1, 4, 7, 10, 12, 15]) = Inl e) \<and>
   (tiling_cell TilingComposite FixedEmbeddingComposite solver_name sampler st = Inl e
      \<longleftrightarrow> TilingComposite sampler 1 2 4 = Inl e \<or>
          (\<exists>tiled. TilingComposite sampler 1 2 4 = Inr tiled \<and> num_tiles tiled \<noteq> 0 \<and>
             ((embeddings tiled = [] \<and> e = IndexError) \<or>
              (\<exists>embedding others. embeddings tiled = embedding # others \<and>
                 FixedEmbeddingComposite sampler embedding = Inl e)))) \<and>
   (TilingComposite sampler 1 2 4 = Inr no_tile \<and> num_tiles no_tile = 0 \<longrightarrow>
      tiling_cell TilingComposite FixedEmbeddingComposite solver_name sampler st =
        Inr (st\<lparr>printed := printed st @ [Unable_to_find solver_name]\<rparr>)) \<and>
   (sampling_cell sample_ising add_reduce ground_energy forward_req pause_req reverse_req st = Inl e
      \<longleftrightarrow> (sampler_embedded st = None \<and> e = NameError) \<or>
          (\<exists>composite. sampler_embedded st = Some composite \<and>
             ((sample_ising composite forward_req = Inl e \<or>
               (sample_ising composite forward_req = Inr [] \<and> e = ValueError)) \<or>
              ((\<exists>answer. sample_ising composite forward_req = Inr answer \<and> answer \<noteq> []) \<and>
               ((sample_ising composite pause_req = Inl e \<or>
                 (sample_ising composite pause_req = Inr [] \<and> e = ValueError)) \<or>
                ((\<exists>answer. sample_ising composite pause_req = Inr answer \<and> answer \<noteq> []) \<and>
                 (sample_ising composite reverse_req = Inl e \<or>
                  (sample_ising composite reverse_req = Inr [] \<and> e = ValueError)))))))) \<and>
   (modulating_request admissible ramp_back_slope timed_sample_ising reverse_request add_reduce
        max_slope composite_name initial_state (s_target, hold_time) = Inl e
      \<longleftrightarrow> make_reverse_anneal_schedule admissible ramp_back_slope s_target hold_time max_slope = Inl e \<or>
          (\<exists>schedule.
             make_reverse_anneal_schedule admissible ramp_back_slope s_target hold_time max_slope
               = Inr schedule \<and>
             ((composite_name = None \<and> e = NameError) \<or>
              (\<exists>composite. composite_name = Some composite \<and>
                 (timed_sample_ising composite (reverse_request schedule initial_state) = Inl e \<or>
                  (\<exists>modulating_answer.
                     timed_sample_ising composite (reverse_request schedule initial_state)
                       = Inr (modulating_answer, None) \<and> e = KeyError)))))) \<and>
   (modulating_cell admissible ramp_back_slope timed_sample_ising reverse_request add_reduce
        max_slope composite_name h ref = Inl e
      \<longleftrightarrow> (\<exists>pre p rest. List.product s_target_vals hold_time_vals = pre @ p # rest \<and>
             (\<forall>q\<in>set pre. \<exists>r. modulating_request admissible ramp_back_slope timed_sample_ising
                                  reverse_request add_reduce max_slope composite_name
                                  (flipped_state [0, 7, 15]) q = Inr r) \<and>
             modulating_request admissible ramp_back_slope timed_sample_ising reverse_request
               add_reduce max_slope composite_name (flipped_state [0, 7, 15]) p = Inl e)) \<and>
   (exercise_cell admissible ramp_back_slope sample_ising exercise_request
        max_slope ground_energy composite_name h ref = Inl e
      \<longleftrightarrow> make_reverse_anneal_schedule admissible ramp_back_slope (45 / 100) 40 max_slope = Inl e \<or>
          (\<exists>schedule.
             make_reverse_anneal_schedule admissible ramp_back_slope (45 / 100) 40 max_slope
               = Inr schedule \<and>
             ((composite_name = None \<and> e = NameError) \<or>
              (\<exists>composite. composite_name = Some composite \<and>
                 (sample_ising composite
                    (exercise_request schedule
                       (flipped_state [1, 2, 5, 6, 9, 10, 13, 14, 15])) = Inl e \<or>
                  (sample_ising composite
                     (exercise_request schedule
                        (flipped_state [1, 2, 5, 6, 9, 10, 13, 14, 15])) = Inr [] \<and>
                   e = IndexError)))))) \<and>
   (analyze add_reduce ground_energy answer = Inl e \<longleftrightarrow> answer = [] \<and> e = ValueError) \<and>
   (snd (flip_bits heap sample_ref spin_bits) = Inl e
      \<longleftrightarrow> \<not> set spin_bits \<subseteq> dom (heap sample_ref) \<and> e = KeyError)"
proof (intro conjI)
  show "connect_cell DWaveSampler name_of = Inl e \<longleftrightarrow> DWaveSampler = Inl e"
    by (rule connect_cell_raises)
  show "max_slope_cell min_anneal_time = Inl e \<longleftrightarrow> min_anneal_time = 0 \<and> e = ZeroDivisionError"
    by (rule max_slope_cell_raises)
  show "TilingComposite sampler 1 2 4 = Inr no_tile \<and> num_tiles no_tile = 0 \<longrightarrow>
      tiling_cell TilingComposite FixedEmbeddingComposite solver_name sampler st =
        Inr (st\<lparr>printed := printed st @ [Unable_to_find solver_name]\<rparr>)"
    by (simp add: tiling_cell_no_tile)
  show "analyze add_reduce ground_energy answer = Inl e \<longleftrightarrow> answer = [] \<and> e = ValueError"
    by (rule analyze_raises)
  show "snd (flip_bits heap sample_ref spin_bits) = Inl e
      \<longleftrightarrow> \<not> set spin_bits \<subseteq> dom (heap sample_ref) \<and> e = KeyError"
    by (rule flip_bits_raises)
qed (rule schedule_cell_raises forward_request_cell_raises reverse_request_cell_raises
       energy_cell_raises initial_state_cell_raises tiling_cell_raises sampling_cell_raises
       modulating_request_raises modulating_cell_raises exercise_cell_raises)+

theorem exceptions_propagate_witness:
  "tiling_cell example_TilingComposite example_FixedEmbeddingComposite ''qpu'' 0
     \<lparr>sampler_embedded = None, printed = []\<rparr> = Inl (VendorError ''SolverFailureError'') \<and>
   tiling_cell example_TilingComposite example_FixedEmbeddingComposite ''qpu'' 2
     \<lparr>sampler_embedded = None, printed = []\<rparr> = Inl (VendorError ''InvalidEmbedding'') \<and>
   tiling_cell example_TilingComposite example_FixedEmbeddingComposite ''qpu'' 1
     \<lparr>sampler_embedded = None, printed = []\<rparr>
     = Inr \<lparr>sampler_embedded = None, printed = [Unable_to_find ''qpu'']\<rparr> \<and>
   sampling_cell example_sample_ising example_add_reduce (-20) 2 2 2
     \<lparr>sampler_embedded = None, printed = [Unable_to_find ''qpu'']\<rparr> = Inl NameError \<and>
   sampling_cell example_sample_ising example_add_reduce (-20) 2 2 0
     \<lparr>sampler_embedded = Some 9, printed = []\<rparr> = Inl (VendorError ''InvalidSchedule'') \<and>
   sampling_cell example_sample_ising example_add_reduce (-20) 2 1 2
     \<lparr>sampler_embedded = Some 9, printed = []\<rparr> = Inl ValueError \<and>
   modulating_cell example_admissible 1 example_timed_sample_ising (\<lambda>schedule initial_state. schedule)
     example_add_reduce 1 (Some 9) example_heap 1 = Inl (VendorError ''InvalidSchedule'')"
proof -
  let ?st = "\<lparr>sampler_embedded = None :: nat option, printed = []\<rparr>"
  let ?st9 = "\<lparr>sampler_embedded = Some (9::nat), printed = []\<rparr>"
  note defs = example_TilingComposite_def example_FixedEmbeddingComposite_def
    example_sample_ising_def example_raw_answer_def
  have 1: "tiling_cell example_TilingComposite example_FixedEmbeddingComposite ''qpu'' 0 ?st
             = Inl (VendorError ''SolverFailureError'')"
    by (rule exceptions_propagate [where TilingComposite = example_TilingComposite
          and FixedEmbeddingComposite = example_FixedEmbeddingComposite
          and solver_name = "''qpu''" and st = ?st
          and sampler = 0 and e = "VendorError ''SolverFailureError''",
          THEN conjunct2, THEN conjunct2, THEN conjunct2, THEN conjunct2, THEN conjunct2, THEN conjunct2, THEN conjunct2, THEN conjunct1, THEN iffD2])
       (simp add: defs)
  have 2: "tiling_cell example_TilingComposite example_FixedEmbeddingComposite ''qpu'' 2 ?st
             = Inl (VendorError ''InvalidEmbedding'')"
    by (rule exceptions_propagate [where TilingComposite = example_TilingComposite
          and FixedEmbeddingComposite = example_FixedEmbeddingComposite
          and solver_name = "''qpu''" and st = ?st
          and sampler = 2 and e = "VendorError ''InvalidEmbedding''",
          THEN conjunct2, THEN conjunct2, THEN conjunct2, THEN conjunct2, THEN conjunct2, THEN conjunct2, THEN conjunct2, THEN conjunct1, THEN iffD2])
       (simp add: defs)
  have 3: "tiling_cell example_TilingComposite example_FixedEmbeddingComposite ''qpu'' 1 ?st
             = Inr \<lparr>sampler_embedded = None, printed = [Unable_to_find ''qpu'']\<rparr>"
    using exceptions_propagate [where TilingComposite = example_TilingComposite
          and FixedEmbeddingComposite = example_FixedEmbeddingComposite
          and solver_name = "''qpu''" and st = ?st
          and sampler = 1 and no_tile = "\<lparr>num_tiles = 0, embeddings = []\<rparr>",
          THEN conjunct2, THEN conjunct2, THEN conjunct2, THEN conjunct2, THEN conjunct2, THEN conjunct2, THEN conjunct2, THEN conjunct2, THEN conjunct1]
    by (simp add: defs)
  have 4: "sampling_cell example_sample_ising example_add_reduce (-20) 2 2 2
             \<lparr>sampler_embedded = None, printed = [Unable_to_find ''qpu'']\<rparr> = Inl NameError"
    by (rule exceptions_propagate [where sample_ising = example_sample_ising
          and st = "\<lparr>sampler_embedded = None, printed = [Unable_to_find ''qpu'']\<rparr>"
          and e = NameError,
          THEN conjunct2, THEN conjunct2, THEN conjunct2, THEN conjunct2, THEN conjunct2, THEN conjunct2, THEN conjunct2, THEN conjunct2, THEN conjunct2, THEN conjunct1, THEN iffD2])
       simp
  have 5: "sampling_cell example_sample_ising example_add_reduce (-20) 2 2 0 ?st9
             = Inl (VendorError ''InvalidSchedule'')"
    by (rule exceptions_propagate [where sample_ising = example_sample_ising and st = ?st9
          and e = "VendorError ''InvalidSchedule''",
          THEN conjunct2, THEN conjunct2, THEN conjunct2, THEN conjunct2, THEN conjunct2, THEN conjunct2, THEN conjunct2, THEN conjunct2, THEN conjunct2, THEN conjunct1, THEN iffD2])
       (simp add: defs)
  have 6: "sampling_cell example_sample_ising example_add_reduce (-20) 2 1 2 ?st9 = Inl ValueError"
    by (rule exceptions_propagate [where sample_ising = example_sample_ising and st = ?st9
          and e = ValueError,
          THEN conjunct2, THEN conjunct2, THEN conjunct2, THEN conjunct2, THEN conjunct2, THEN conjunct2, THEN conjunct2, THEN conjunct2, THEN conjunct2, THEN conjunct1, THEN iffD2])
       (simp add: defs)
  let ?request = "modulating_request example_admissible 1 example_timed_sample_ising
                    (\<lambda>schedule initial_state. schedule) example_add_reduce 1 (Some 9)
                    (flipped_state [0, 7, 15])"
  have ok: "\<exists>r. ?request (3 / 10, 10) = Inr r"
    by (simp add: modulating_request_def make_reverse_anneal_schedule_def example_admissible_def
          example_timed_sample_ising_def)
  have refused: "?request (3 / 10, 100) = Inl (VendorError ''InvalidSchedule'')"
    by (simp add: modulating_request_def make_reverse_anneal_schedule_def example_admissible_def
          example_timed_sample_ising_def)
  have "\<exists>pre p rest. List.product s_target_vals hold_time_vals = pre @ p # rest \<and>
          (\<forall>q\<in>set pre. \<exists>r. ?request q = Inr r) \<and>
          ?request p = Inl (VendorError ''InvalidSchedule'')"
  proof (rule exI [of _ "[(3 / 10, 10)]"], rule exI [of _ "(3 / 10, 100)"],
         rule exI [of _ "tl (tl (List.product s_target_vals hold_time_vals))"], intro conjI)
    show "List.product s_target_vals hold_time_vals =
            [(3 / 10, 10)] @ (3 / 10, 100) # tl (tl (List.product s_target_vals hold_time_vals))"
      by (simp add: s_target_vals_def hold_time_vals_def)
    show "\<forall>q\<in>set [(3 / 10, 10)]. \<exists>r. ?request q = Inr r"
      using ok by simp
    show "?request (3 / 10, 100) = Inl (VendorError ''InvalidSchedule'')"
      by (rule refused)
  qed
  then have 7: "modulating_cell example_admissible 1 example_timed_sample_ising
                  (\<lambda>schedule initial_state. schedule) example_add_reduce 1 (Some 9) example_heap 1
                  = Inl (VendorError ''InvalidSchedule'')"
    by (rule exceptions_propagate [THEN conjunct2, THEN conjunct2, THEN conjunct2, THEN conjunct2, THEN conjunct2, THEN conjunct2, THEN conjunct2, THEN conjunct2, THEN conjunct2, THEN conjunct2, THEN conjunct2, THEN conjunct1, THEN iffD2])
  from 1 2 3 4 5 6 7 show ?thesis by (intro conjI)
qed

section \<open>Flipping spins in place\<close>

text \<open>
  C8 (amended).  When every element of \<open>spin_bits\<close> is a key of the sample,
  \<open>flip_bits\<close> returns the reference it was given, the dictionary at that reference has
  exactly the named entries negated and every other entry unchanged, and no other object
  changes; a second call with the same bits restores the heap; and when no flipped entry
  is 0 the Hamming distance between the sample before and after the call is the number of
  distinct bits.  When some element of \<open>spin_bits\<close> is not a key, \<open>flip_bits\<close> raises
  \<open>KeyError\<close> and changes nothing.
\<close>

theorem flip_bits_in_place:
  "(set spin_bits \<subseteq> dom (h ref) \<longrightarrow>
      (\<exists>h'. flip_bits h ref spin_bits = (h', Inr ref) \<and>
         (\<forall>r. r \<noteq> ref \<longrightarrow> h' r = h r) \<and>
         (\<forall>k. h' ref k = (if k \<in> set spin_bits then map_option uminus (h ref k) else h ref k)) \<and>
         flip_bits h' ref spin_bits = (h, Inr ref) \<and>
         ((\<forall>k\<in>set spin_bits. h ref k \<noteq> Some 0) \<longrightarrow>
            (\<forall>ks. distinct ks \<and> set ks = dom (h ref) \<longrightarrow>
               get_hamming_distance (map (h ref) ks) (map (h' ref) ks) = card (set spin_bits))))) \<and>
   (\<not> set spin_bits \<subseteq> dom (h ref) \<longrightarrow> flip_bits h ref spin_bits = (h, Inl KeyError))"
proof (intro conjI impI)
  assume sub: "set spin_bits \<subseteq> dom (h ref)"
  let ?g = "\<lambda>k. if k \<in> set spin_bits then map_option uminus (h ref k) else h ref k"
  let ?h' = "h(ref := ?g)"
  have first: "flip_bits h ref spin_bits = (?h', Inr ref)"
    by (rule flip_bits_present [of spin_bits h ref, OF sub])
  have sub': "set spin_bits \<subseteq> dom (?h' ref)"
    using sub by (auto simp: dom_def)
  have back_fn: "(\<lambda>k. if k \<in> set spin_bits then map_option uminus (?h' ref k) else ?h' ref k) = h ref"
    by (rule ext) (simp add: option.map_comp comp_def option.map_ident)
  have second: "flip_bits ?h' ref spin_bits = (h, Inr ref)"
    unfolding flip_bits_present [of spin_bits ?h' ref, OF sub'] back_fn by simp
  have ham: "\<forall>ks. distinct ks \<and> set ks = dom (h ref) \<longrightarrow>
               get_hamming_distance (map (h ref) ks) (map (?h' ref) ks) = card (set spin_bits)"
    if "\<forall>k\<in>set spin_bits. h ref k \<noteq> Some 0"
    using flipped_hamming [OF sub that] by simp
  show "\<exists>h'. flip_bits h ref spin_bits = (h', Inr ref) \<and>
         (\<forall>r. r \<noteq> ref \<longrightarrow> h' r = h r) \<and>
         (\<forall>k. h' ref k = (if k \<in> set spin_bits then map_option uminus (h ref k) else h ref k)) \<and>
         flip_bits h' ref spin_bits = (h, Inr ref) \<and>
         ((\<forall>k\<in>set spin_bits. h ref k \<noteq> Some 0) \<longrightarrow>
            (\<forall>ks. distinct ks \<and> set ks = dom (h ref) \<longrightarrow>
               get_hamming_distance (map (h ref) ks) (map (h' ref) ks) = card (set spin_bits)))"
  proof (rule exI [of _ ?h'], intro conjI)
    show "flip_bits h ref spin_bits = (?h', Inr ref)" by (rule first)
    show "\<forall>r. r \<noteq> ref \<longrightarrow> ?h' r = h r" by simp
    show "\<forall>k. ?h' ref k = (if k \<in> set spin_bits then map_option uminus (h ref k) else h ref k)"
      by simp
    show "flip_bits ?h' ref spin_bits = (h, Inr ref)" by (rule second)
    show "(\<forall>k\<in>set spin_bits. h ref k \<noteq> Some 0) \<longrightarrow>
            (\<forall>ks. distinct ks \<and> set ks = dom (h ref) \<longrightarrow>
               get_hamming_distance (map (h ref) ks) (map (?h' ref) ks) = card (set spin_bits))"
      using ham by blast
  qed
next
  assume "\<not> set spin_bits \<subseteq> dom (h ref)"
  then show "flip_bits h ref spin_bits = (h, Inl KeyError)" by (rule flip_bits_missing)
qed

theorem flip_bits_in_place_witness:
  "set [1, 2] \<subseteq> dom (example_heap 0) \<and>
   example_heap 0 1 \<noteq> Some 0 \<and> example_heap 0 2 \<noteq> Some 0 \<and>
   distinct [0, 1, 2 :: nat] \<and> set [0, 1, 2] = dom (example_heap 0) \<and>
   (\<exists>h'. flip_bits example_heap 0 [1, 2] = (h', Inr 0) \<and>
      h' 1 = example_heap 1 \<and>
      h' 0 0 = Some (- 1) \<and> h' 0 1 = Some 1 \<and> h' 0 2 = Some 1 \<and>
      flip_bits h' 0 [1, 2] = (example_heap, Inr 0) \<and>
      get_hamming_distance (map (example_heap 0) [0, 1, 2]) (map (h' 0) [0, 1, 2]) = 2) \<and>
   \<not> set [5] \<subseteq> dom (example_heap 0) \<and>
   flip_bits example_heap 0 [5] = (example_heap, Inl KeyError)"
proof -
  have dm: "dom (example_heap 0) = {0, 1, 2}"
    by (auto simp: example_heap_def split: if_splits)
  have sub: "set [1, 2] \<subseteq> dom (example_heap 0)" unfolding dm by simp
  have nz: "\<forall>k\<in>set [1, 2]. example_heap 0 k \<noteq> Some 0"
    by (simp add: example_heap_def)
  have ks: "distinct [0, 1, 2 :: nat] \<and> set [0, 1, 2] = dom (example_heap 0)"
    unfolding dm by auto
  have miss: "\<not> set [5] \<subseteq> dom (example_heap 0)" unfolding dm by simp
  note th = flip_bits_in_place [of _ example_heap 0]
  from th [of "[1, 2]"] sub obtain h' where
    h': "flip_bits example_heap 0 [1, 2] = (h', Inr 0)"
        "\<forall>r. r \<noteq> 0 \<longrightarrow> h' r = example_heap r"
        "\<forall>k. h' 0 k = (if k \<in> set [1, 2] then map_option uminus (example_heap 0 k)
                        else example_heap 0 k)"
        "flip_bits h' 0 [1, 2] = (example_heap, Inr 0)"
        "(\<forall>k\<in>set [1, 2]. example_heap 0 k \<noteq> Some 0) \<longrightarrow>
           (\<forall>ks. distinct ks \<and> set ks = dom (example_heap 0) \<longrightarrow>
              get_hamming_distance (map (example_heap 0) ks) (map (h' 0) ks) = card (set [1, 2 :: nat]))"
    by blast
  from h'(2) have other: "h' 1 = example_heap 1" by simp
  from h'(3) have vals: "h' 0 0 = Some (- 1)" "h' 0 1 = Some 1" "h' 0 2 = Some 1"
    by (simp_all add: example_heap_def)
  from h'(5) nz ks have "get_hamming_distance (map (example_heap 0) [0, 1, 2]) (map (h' 0) [0, 1, 2])
                           = card (set [1, 2 :: nat])"
    by blast
  then have ham: "get_hamming_distance (map (example_heap 0) [0, 1, 2]) (map (h' 0) [0, 1, 2]) = 2"
    by simp
  from th [of "[5]"] miss have err: "flip_bits example_heap 0 [5] = (example_heap, Inl KeyError)"
    by blast
  have "\<exists>h'. flip_bits example_heap 0 [1, 2] = (h', Inr 0) \<and>
      h' 1 = example_heap 1 \<and>
      h' 0 0 = Some (- 1) \<and> h' 0 1 = Some 1 \<and> h' 0 2 = Some 1 \<and>
      flip_bits h' 0 [1, 2] = (example_heap, Inr 0) \<and>
      get_hamming_distance (map (example_heap 0) [0, 1, 2]) (map (h' 0) [0, 1, 2]) = 2"
    using h'(1,4) other vals ham by blast
  with sub nz ks miss err show ?thesis by simp
qed

text \<open>
  The claim as first stated, for every sample and every set of bits, fails on a bit that
  is not a key of the sample (nothing is returned) and on an entry that is 0 (it is
  flipped, and the distance is 0).
\<close>

theorem flip_bits_in_place_counterexample:
  "flip_bits example_heap 0 [5] = (example_heap, Inl KeyError) \<and>
   snd (flip_bits example_zero_heap 0 [0]) = Inr 0 \<and>
   get_hamming_distance (map (example_zero_heap 0) [0])
     (map (fst (flip_bits example_zero_heap 0 [0]) 0) [0]) = 0 \<and>
   card (set [0::nat]) = 1"
  by (simp add: flip_bits_def get_hamming_distance_def example_heap_def example_zero_heap_def)

section \<open>The index of the initial state\<close>

text \<open>
  C9.  For every non-empty forward-anneal result set of \<open>n\<close> records, the index
  \<^verbatim>\<open>i5 = int(5.0/95*n)\<close> satisfies \<open>0 \<le> i5 < n\<close>: the lookup
  \<^verbatim>\<open>forward_answer.record[i5]\<close> returns a record and the cell raises no
  \<^verbatim>\<open>IndexError\<close>.
\<close>

theorem i5_in_range:
  assumes "forward_answer \<noteq> []"
  shows "0 \<le> i5 (length forward_answer) \<and>
         i5 (length forward_answer) < int (length forward_answer) \<and>
         py_index forward_answer (i5 (length forward_answer))
           = Inr (forward_answer ! nat (i5 (length forward_answer))) \<and>
         (\<exists>rep. forward_cell add_reduce vars forward_answer = Inr rep)"
proof -
  from assms have n: "0 < length forward_answer" by simp
  note b = i5_bounds [OF n]
  from b have "py_index forward_answer (i5 (length forward_answer))
                 = Inr (forward_answer ! nat (i5 (length forward_answer)))"
    by (rule py_index_in_range)
  moreover have "\<exists>rep. forward_cell add_reduce vars forward_answer = Inr rep"
    unfolding forward_cell_nonempty [OF assms] by blast
  ultimately show ?thesis using b by (intro conjI)
qed

theorem i5_in_range_witness:
  "example_forward_answer \<noteq> [] \<and>
   i5 (length example_forward_answer) = 1 \<and>
   0 \<le> i5 (length example_forward_answer) \<and>
   i5 (length example_forward_answer) < int (length example_forward_answer) \<and>
   py_index example_forward_answer (i5 (length example_forward_answer))
     = Inr (example_forward_answer ! nat (i5 (length example_forward_answer))) \<and>
   (\<exists>rep. forward_cell example_add_reduce [0::nat] example_forward_answer = Inr rep)"
proof -
  have ne: "example_forward_answer \<noteq> []" by (simp add: example_forward_answer_def)
  have "i5 (length example_forward_answer) = 1"
    by (simp add: example_forward_answer_def i5_def py_int_def)
  with ne i5_in_range [OF ne, where add_reduce = example_add_reduce and vars = "[0::nat]"] show ?thesis by blast
qed

text \<open>
  The bounds do not depend on exact arithmetic: they hold for every pair of relative
  rounding errors up to one half, far more than a double-precision operation commits.
\<close>

theorem i5_rounded_in_range:
  assumes "0 < n" and "\<bar>d1\<bar> \<le> 1 / 2" and "\<bar>d2\<bar> \<le> 1 / 2"
  shows "0 \<le> i5_rounded d1 d2 n \<and> i5_rounded d1 d2 n < int n"
proof -
  let ?x = "5 / 95 * (1 + d1) * real n * (1 + d2)"
  from assms(2) have d1: "0 \<le> 1 + d1" "1 + d1 \<le> 3 / 2" by (simp_all add: abs_le_iff)
  from assms(3) have d2: "0 \<le> 1 + d2" "1 + d2 \<le> 3 / 2" by (simp_all add: abs_le_iff)
  from d1(1) d2(1) have nonneg: "0 \<le> ?x" by simp
  have "(1 + d1) * (1 + d2) \<le> 3 / 2 * (3 / 2)"
    using d1 d2 by (intro mult_mono) simp_all
  then have "5 / 95 * real n * ((1 + d1) * (1 + d2)) \<le> 5 / 95 * real n * (3 / 2 * (3 / 2))"
    by (intro mult_left_mono) simp_all
  also have "\<dots> < real n" using assms(1) by simp
  finally have lt: "?x < real n" by (simp add: mult_ac)
  from nonneg have eq: "i5_rounded d1 d2 n = \<lfloor>?x\<rfloor>" by (simp add: i5_rounded_def py_int_def)
  from nonneg have "0 \<le> \<lfloor>?x\<rfloor>" by simp
  moreover from lt have "\<lfloor>?x\<rfloor> < int n" by (simp add: floor_less_iff)
  ultimately show ?thesis unfolding eq by simp
qed

theorem i5_rounded_in_range_witness:
  "(0::nat) < 19 \<and> \<bar>0 :: real\<bar> \<le> 1 / 2 \<and> \<bar>- (1 / 2 ^ 53) :: real\<bar> \<le> 1 / 2 \<and>
   0 \<le> i5_rounded 0 (- (1 / 2 ^ 53)) 19 \<and> i5_rounded 0 (- (1 / 2 ^ 53)) 19 < int 19 \<and>
   i5_rounded 0 (- (1 / 2 ^ 53)) 19 = 0 \<and> i5 19 = 1"
proof -
  have h: "(0::nat) < 19" "\<bar>0 :: real\<bar> \<le> 1 / 2" "\<bar>- (1 / 2 ^ 53) :: real\<bar> \<le> 1 / 2"
    by simp_all
  have v: "i5_rounded 0 (- (1 / 2 ^ 53)) 19 = 0" "i5 19 = 1"
    by (simp_all add: i5_rounded_def i5_def py_int_def)
  note b = i5_rounded_in_range [OF h]
  from b have b1: "0 \<le> i5_rounded 0 (- (1 / 2 ^ 53)) 19" ..
  from b have b2: "i5_rounded 0 (- (1 / 2 ^ 53)) 19 < int 19" ..
  from h b1 b2 v show ?thesis by (intro conjI)
qed

section \<open>The slope of the final ramp of the pause schedule\<close>




end
